theory Spec2Isabelle
  imports Complex_Main "HOL-Library.AList"
begin

section \<open>Runtime base client (dependencies/base\_client.py)\<close>

subsection \<open>Python values\<close>

text \<open>
  An \<open>io.IOBase\<close> instance: the object (its identity) together with its \<open>mode\<close>
  attribute, \<open>None\<close> when the object has no such attribute (\<open>io.BytesIO\<close>). The mode of
  the io module's classes is a \<open>str\<close>. Two references to one object are equal values, so
  the identity test behind \<open>in\<close> on a dictionary keyed by such objects is equality here.
\<close>

datatype io_base = IOBase (ident: nat) (mode: "string option")

text \<open>
  The values a variables mapping (\<open>Dict[str, Any]\<close>) can hold. A dictionary is an
  association list in insertion order, its keys are strings. \<open>VBaseModel d\<close> is an
  instance of a pydantic \<open>BaseModel\<close>; it carries \<open>d\<close>, the dictionary its method
  \<open>dict(by_alias=True, exclude_unset=True)\<close> returns. \<open>VUnset\<close> is the \<open>UNSET\<close>
  sentinel, \<open>VObject n\<close> any other object. A float stands for the number it denotes;
  nothing here computes with floats.
\<close>

datatype pyval =
    VNone
  | VUnset
  | VBool bool
  | VInt int
  | VFloat real
  | VStr string
  | VList "pyval list"
  | VDict "(string \<times> pyval) list"
  | VBaseModel "(string \<times> pyval) list"
  | VIOBase io_base
  | VObject nat

type_synonym variables = "(string \<times> pyval) list"

text \<open>\<open>Dict[IO[bytes], List[str]]\<close>, in insertion order.\<close>

type_synonym files_to_paths = "(io_base \<times> string list) list"

subsection \<open>\<open>str\<close> of a non-negative integer\<close>

definition digit_char :: "nat \<Rightarrow> char" where
  "digit_char d = char_of (48 + d)"

function str_nat :: "nat \<Rightarrow> string" where
  "str_nat n = (if n < 10 then [digit_char n] else str_nat (n div 10) @ [digit_char (n mod 10)])"
  by pat_completeness auto
termination
  by (relation "measure id") auto

declare str_nat.simps [simp del]

text \<open>
  Reading a decimal numeral back, the inverse of \<open>str_nat\<close>: it shows that the indices
  \<open>str(i)\<close> of distinct positions are distinct keys.
\<close>

definition digit_value :: "char \<Rightarrow> nat" where
  "digit_value c = of_char c - 48"

definition decimal_value :: "string \<Rightarrow> nat" where
  "decimal_value s = foldl (\<lambda>a c. 10 * a + digit_value c) 0 s"

subsection \<open>Variable normalization\<close>

text \<open>
  \<open>d[key] = value\<close> on an insertion-ordered dictionary is \<open>AList.update\<close>: the value of
  an existing key is replaced in place, a new key goes to the end.
\<close>

fun convert_value :: "pyval \<Rightarrow> pyval" where
  "convert_value (VBaseModel d) = VDict d"
| "convert_value (VList xs) = VList (map convert_value xs)"
| "convert_value v = v"

definition convert_dict_to_json_serializable :: "variables \<Rightarrow> variables" where
  "convert_dict_to_json_serializable dct =
     foldl (\<lambda>acc (key, v). AList.update key (convert_value v) acc) []
       (filter (\<lambda>(key, v). v \<noteq> VUnset) dct)"

text \<open>
  The branch of \<open>separate_files\<close> for a binary file handle: the handle's paths grow by
  \<open>path\<close> when the handle is a key already, otherwise the handle becomes a new key.
\<close>

definition record_file :: "io_base \<Rightarrow> string \<Rightarrow> files_to_paths \<Rightarrow> files_to_paths" where
  "record_file checked_obj path files_to_paths_map =
     (case map_of files_to_paths_map checked_obj of
        Some paths \<Rightarrow> AList.update checked_obj (paths @ [path]) files_to_paths_map
      | None \<Rightarrow> AList.update checked_obj [path] files_to_paths_map)"

text \<open>\<open>"b" in getattr(obj, "mode", "b")\<close>\<close>

definition is_binary :: "io_base \<Rightarrow> bool" where
  "is_binary obj = (CHR ''b'' \<in> set (case mode obj of None \<Rightarrow> ''b'' | Some m \<Rightarrow> m))"

text \<open>
  The closure \<open>separate_files\<close> of \<open>_get_files_from_variables\<close>; the dictionary
  \<open>files_to_paths_map\<close> it mutates is passed in and returned. \<open>separate_list\<close> and
  \<open>separate_dict\<close> are its two loops, with the index of \<open>enumerate\<close> and the list or
  dictionary built so far.
\<close>

fun separate_files :: "string \<Rightarrow> pyval \<Rightarrow> files_to_paths \<Rightarrow> pyval \<times> files_to_paths"
  and separate_list ::
    "string \<Rightarrow> nat \<Rightarrow> pyval list \<Rightarrow> pyval list \<Rightarrow> files_to_paths \<Rightarrow> pyval list \<times> files_to_paths"
  and separate_dict ::
    "string \<Rightarrow> variables \<Rightarrow> variables \<Rightarrow> files_to_paths \<Rightarrow> variables \<times> files_to_paths"
where
  "separate_files path (VList obj) fm =
     (case separate_list path 0 obj [] fm of (nulled_list, fm') \<Rightarrow> (VList nulled_list, fm'))"
| "separate_files path (VDict obj) fm =
     (case separate_dict path obj [] fm of (nulled_dict, fm') \<Rightarrow> (VDict nulled_dict, fm'))"
| "separate_files path (VIOBase obj) fm =
     (if is_binary obj then (VNone, record_file obj path fm) else (VIOBase obj, fm))"
| "separate_files path VNone fm = (VNone, fm)"
| "separate_files path VUnset fm = (VUnset, fm)"
| "separate_files path (VBool b) fm = (VBool b, fm)"
| "separate_files path (VInt i) fm = (VInt i, fm)"
| "separate_files path (VFloat r) fm = (VFloat r, fm)"
| "separate_files path (VStr s) fm = (VStr s, fm)"
| "separate_files path (VBaseModel d) fm = (VBaseModel d, fm)"
| "separate_files path (VObject n) fm = (VObject n, fm)"
| "separate_list path index [] nulled_list fm = (nulled_list, fm)"
| "separate_list path index (v # rest) nulled_list fm =
     (case separate_files (path @ ''.'' @ str_nat index) v fm of
        (v', fm') \<Rightarrow> separate_list path (Suc index) rest (nulled_list @ [v']) fm')"
| "separate_dict path [] nulled_dict fm = (nulled_dict, fm)"
| "separate_dict path ((key, v) # rest) nulled_dict fm =
     (case separate_files (path @ ''.'' @ key) v fm of
        (v', fm') \<Rightarrow> separate_dict path rest (AList.update key v' nulled_dict) fm')"

definition get_files_from_variables :: "variables \<Rightarrow> pyval \<times> files_to_paths" where
  "get_files_from_variables vars = separate_files ''variables'' (VDict vars) []"

text \<open>\<open>_process_variables\<close>; \<open>not variables\<close> holds of \<open>None\<close> and of the empty dictionary.\<close>

definition process_variables :: "variables option \<Rightarrow> pyval \<times> files_to_paths" where
  "process_variables vars =
     (case vars of
        None \<Rightarrow> (VDict [], [])
      | Some dct \<Rightarrow>
          if dct = [] then (VDict [], [])
          else get_files_from_variables (convert_dict_to_json_serializable dct))"

subsection \<open>The walk of the spec\<close>

text \<open>
  The spec's words for file extraction, to compare \<open>separate_files\<close> with: the walk
  carries a path that starts at \<open>variables\<close>; into a sequence it descends with
  \<open>.<index>\<close> appended, into a mapping with \<open>.<key>\<close> appended; a binary-mode file handle
  is bound at the path the walk reaches it with. \<open>file_occurrences\<close> lists these bindings,
  handle and dotted path, in the order the walk encounters them.
\<close>

fun file_occurrences :: "string \<Rightarrow> pyval \<Rightarrow> (io_base \<times> string) list"
  and list_occurrences :: "string \<Rightarrow> nat \<Rightarrow> pyval list \<Rightarrow> (io_base \<times> string) list"
  and dict_occurrences :: "string \<Rightarrow> variables \<Rightarrow> (io_base \<times> string) list"
where
  "file_occurrences p (VList xs) = list_occurrences p 0 xs"
| "file_occurrences p (VDict d) = dict_occurrences p d"
| "file_occurrences p (VIOBase obj) = (if is_binary obj then [(obj, p)] else [])"
| "file_occurrences p VNone = []"
| "file_occurrences p VUnset = []"
| "file_occurrences p (VBool b) = []"
| "file_occurrences p (VInt i) = []"
| "file_occurrences p (VFloat r) = []"
| "file_occurrences p (VStr s) = []"
| "file_occurrences p (VBaseModel d) = []"
| "file_occurrences p (VObject n) = []"
| "list_occurrences p i [] = []"
| "list_occurrences p i (v # rest) =
     file_occurrences (p @ ''.'' @ str_nat i) v @ list_occurrences p (Suc i) rest"
| "dict_occurrences p [] = []"
| "dict_occurrences p ((key, v) # rest) =
     file_occurrences (p @ ''.'' @ key) v @ dict_occurrences p rest"

text \<open>Recording a list of bindings, one after the other.\<close>

definition record_all :: "(io_base \<times> string) list \<Rightarrow> files_to_paths \<Rightarrow> files_to_paths" where
  "record_all occ fm = fold (\<lambda>e. record_file (fst e) (snd e)) occ fm"

text \<open>The distinct elements of a list in the order of their first occurrence.\<close>

primrec first_occurrences :: "'a list \<Rightarrow> 'a list" where
  "first_occurrences [] = []"
| "first_occurrences (x # xs) = x # removeAll x (first_occurrences xs)"

text \<open>The paths a handle is bound at, in encounter order.\<close>

definition paths_of :: "io_base \<Rightarrow> (io_base \<times> string) list \<Rightarrow> string list" where
  "paths_of file occ = map snd (filter (\<lambda>e. fst e = file) occ)"

text \<open>
  A value that contains no file-like value: no \<open>io.IOBase\<close> instance in it, at any depth
  of its lists and dictionaries and of the dictionaries of its models.
\<close>

fun file_like_free :: "pyval \<Rightarrow> bool"
  and file_like_free_list :: "pyval list \<Rightarrow> bool"
  and file_like_free_dict :: "variables \<Rightarrow> bool"
where
  "file_like_free (VList xs) = file_like_free_list xs"
| "file_like_free (VDict d) = file_like_free_dict d"
| "file_like_free (VBaseModel d) = file_like_free_dict d"
| "file_like_free (VIOBase obj) = False"
| "file_like_free VNone = True"
| "file_like_free VUnset = True"
| "file_like_free (VBool b) = True"
| "file_like_free (VInt i) = True"
| "file_like_free (VFloat r) = True"
| "file_like_free (VStr s) = True"
| "file_like_free (VObject n) = True"
| "file_like_free_list [] = True"
| "file_like_free_list (v # rest) = (file_like_free v \<and> file_like_free_list rest)"
| "file_like_free_dict [] = True"
| "file_like_free_dict ((key, v) # rest) = (file_like_free v \<and> file_like_free_dict rest)"

subsection \<open>Requests\<close>

text \<open>
  A call of \<open>http_client.post\<close> with its keyword arguments, \<open>None\<close> for an argument
  that is not passed. \<open>execute\<close> returns what the transport answers to this call; the
  model returns the call.
\<close>

record post_call =
  post_url :: string
  post_content :: "string option"
  post_headers :: "(string \<times> string) list option"
  post_data :: "(string \<times> string) list option"
  post_files :: "(string \<times> io_base) list option"

record base_client =
  url :: string
  headers :: "(string \<times> string) list option"
  http_client :: nat

subsection \<open>Responses and errors\<close>

text \<open>What \<open>json.loads\<close> returns: a JSON document as Python values.\<close>

datatype json =
    JNull
  | JBool bool
  | JInt int
  | JFloat real
  | JStr string
  | JArray "json list"
  | JObject "(string \<times> json) list"

text \<open>Python's truth value of such a value (\<open>if errors:\<close>).\<close>

fun truthy :: "json \<Rightarrow> bool" where
  "truthy JNull = False"
| "truthy (JBool b) = b"
| "truthy (JInt i) = (i \<noteq> 0)"
| "truthy (JFloat r) = (r \<noteq> 0)"
| "truthy (JStr s) = (s \<noteq> [])"
| "truthy (JArray xs) = (xs \<noteq> [])"
| "truthy (JObject d) = (d \<noteq> [])"

record response =
  status_code :: int
  response_content :: string

text \<open>\<open>httpx.Response.is_success\<close>: the status code is one of 200 to 299.\<close>

definition is_success :: "response \<Rightarrow> bool" where
  "is_success r = (200 \<le> status_code r \<and> status_code r \<le> 299)"

text \<open>
  Modelled from the spec: \<open>GraphQLClientGraphQLError\<close> of exceptions.py, which is not
  among the sources. The spec gives it a message, an optional path and optional
  locations, produced by parsing an entry of the server's \<open>errors\<close> array.
\<close>

record graphql_error =
  message :: json
  path :: "json option"
  locations :: "json option"

text \<open>
  The exceptions of the runtime (exceptions.py declares the first three), and the two
  built-in exceptions a subscript can raise.
\<close>

datatype exn =
    GraphQLClientHttpError int response
  | GraphQlClientInvalidResponseError response
  | GraphQLClientGraphQLMultiError "graphql_error list" json
  | KeyError string
  | TypeError

text \<open>
  Modelled from the spec: the construction of a \<open>GraphQLError\<close> from one entry of the
  \<open>errors\<close> array (\<open>GraphQLClientGraphQLError.from_dict\<close> of exceptions.py, not among the
  sources). The message is required: an object without a \<open>message\<close> key, or an entry that
  is no object, has no \<open>GraphQLError\<close>, and the subscript that reads the message raises.
\<close>

definition graphql_error_from_dict :: "json \<Rightarrow> exn + graphql_error" where
  "graphql_error_from_dict entry =
     (case entry of
        JObject d \<Rightarrow>
          (case map_of d ''message'' of
             None \<Rightarrow> Inl (KeyError ''message'')
           | Some m \<Rightarrow>
               Inr \<lparr>message = m, path = map_of d ''path'', locations = map_of d ''locations''\<rparr>)
      | _ \<Rightarrow> Inl TypeError)"

text \<open>
  Modelled from the spec: the entries of the array in their order, each becoming a
  \<open>GraphQLError\<close>; the first entry that has none ends the construction with its exception.
\<close>

fun errors_from_dicts :: "json list \<Rightarrow> exn + graphql_error list" where
  "errors_from_dicts [] = Inr []"
| "errors_from_dicts (entry # rest) =
     (case graphql_error_from_dict entry of
        Inl e \<Rightarrow> Inl e
      | Inr g \<Rightarrow> (case errors_from_dicts rest of Inl e \<Rightarrow> Inl e | Inr gs \<Rightarrow> Inr (g # gs)))"

text \<open>
  Modelled from the spec: \<open>GraphQLClientGraphQLMultiError.from_errors_dicts\<close> of
  exceptions.py, not among the sources: the error built from the \<open>errors\<close> array, each
  entry becoming a \<open>GraphQLError\<close>, and carrying \<open>data\<close>. The result is the exception that
  \<open>raise\<close> then raises: the multi error, or the exception of a failed construction.
\<close>

definition from_errors_dicts :: "json \<Rightarrow> json \<Rightarrow> exn" where
  "from_errors_dicts errors_dicts data =
     (case errors_dicts of
        JArray entries \<Rightarrow>
          (case errors_from_dicts entries of
             Inl e \<Rightarrow> e
           | Inr gs \<Rightarrow> GraphQLClientGraphQLMultiError gs data)
      | _ \<Rightarrow> TypeError)"

text \<open>
  \<open>get_data\<close>. \<open>loads\<close> is the JSON decoder behind \<open>response.json()\<close>, \<open>None\<close> where it
  raises \<open>ValueError\<close>. \<open>response_json.get("errors")\<close> is \<open>None\<close> for a missing key.
\<close>

definition get_data :: "(string \<Rightarrow> json option) \<Rightarrow> response \<Rightarrow> exn + json" where
  "get_data loads response =
     (if \<not> is_success response
      then Inl (GraphQLClientHttpError (status_code response) response)
      else
        (case loads (response_content response) of
           None \<Rightarrow> Inl (GraphQlClientInvalidResponseError response)
         | Some response_json \<Rightarrow>
             (case response_json of
                JObject d \<Rightarrow>
                  (case map_of d ''data'' of
                     None \<Rightarrow> Inl (GraphQlClientInvalidResponseError response)
                   | Some data \<Rightarrow>
                       (let errors = (case map_of d ''errors'' of None \<Rightarrow> JNull | Some e \<Rightarrow> e)
                        in if truthy errors then Inl (from_errors_dicts errors data)
                           else Inr data))
              | _ \<Rightarrow> Inl (GraphQlClientInvalidResponseError response))))"



subsection \<open>Dispatch\<close>

text \<open>
  \<open>dumps\<close> is \<open>json.dumps(_, default=pydantic_encoder)\<close>, which raises on a value it
  cannot serialise.
\<close>

definition execute_json :: "(pyval \<Rightarrow> exn + string) \<Rightarrow> base_client \<Rightarrow> pyval \<Rightarrow> exn + post_call" where
  "execute_json dumps self payload =
     (case dumps payload of
        Inl e \<Rightarrow> Inl e
      | Inr content \<Rightarrow>
          Inr \<lparr>post_url = url self, post_content = Some content,
               post_headers = Some [(''Content-Type'', ''application/json'')],
               post_data = None, post_files = None\<rparr>)"

text \<open>
  The two dictionary comprehensions of \<open>_execute_multipart\<close> over
  \<open>enumerate(files_to_paths_map.keys())\<close>. The subscript \<open>files_to_paths_map[file_]\<close> raises
  \<open>KeyError\<close> on a missing key (\<open>KeyError\<close> carries the key as text, here the variable's name,
  the key being an object).
\<close>

fun files_map_of ::
  "files_to_paths \<Rightarrow> (nat \<times> io_base) list \<Rightarrow> (string \<times> string list) list
     \<Rightarrow> exn + (string \<times> string list) list" where
  "files_map_of fm [] acc = Inr acc"
| "files_map_of fm ((i, file) # rest) acc =
     (case map_of fm file of
        None \<Rightarrow> Inl (KeyError ''file'')
      | Some paths \<Rightarrow> files_map_of fm rest (AList.update (str_nat i) paths acc))"

definition files_of :: "(nat \<times> io_base) list \<Rightarrow> (string \<times> io_base) list" where
  "files_of keys = foldl (\<lambda>acc (i, file). AList.update (str_nat i) file acc) [] keys"

text \<open>The dictionary \<open>files_map\<close> as the value handed to \<open>json.dumps\<close>.\<close>

definition files_map_value :: "(string \<times> string list) list \<Rightarrow> pyval" where
  "files_map_value files_map = VDict (map (\<lambda>(i, paths). (i, VList (map VStr paths))) files_map)"

definition execute_multipart ::
  "(pyval \<Rightarrow> exn + string) \<Rightarrow> base_client \<Rightarrow> pyval \<Rightarrow> files_to_paths \<Rightarrow> exn + post_call" where
  "execute_multipart dumps self payload files_to_paths_map =
     (case files_map_of files_to_paths_map (enumerate 0 (map fst files_to_paths_map)) [] of
        Inl e \<Rightarrow> Inl e
      | Inr files_map \<Rightarrow>
          (let files = files_of (enumerate 0 (map fst files_to_paths_map)) in
           case dumps payload of
             Inl e \<Rightarrow> Inl e
           | Inr operations \<Rightarrow>
               (case dumps (files_map_value files_map) of
                  Inl e \<Rightarrow> Inl e
                | Inr map_field \<Rightarrow>
                    Inr \<lparr>post_url = url self, post_content = None, post_headers = None,
                         post_data = Some [(''operations'', operations), (''map'', map_field)],
                         post_files = Some files\<rparr>)))"

definition execute ::
  "(pyval \<Rightarrow> exn + string) \<Rightarrow> base_client \<Rightarrow> string \<Rightarrow> variables option \<Rightarrow> exn + post_call" where
  "execute dumps self query vars =
     (case process_variables vars of
        (processed_variables, files_to_paths_map) \<Rightarrow>
          (let payload = VDict [(''query'', VStr query), (''variables'', processed_variables)]
           in if files_to_paths_map \<noteq> []
              then execute_multipart dumps self payload files_to_paths_map
              else execute_json dumps self payload))"

text \<open>
  A stand-in for \<open>json.dumps\<close> in a concrete run: it serializes the \<open>map\<close> value of that run
  and \<open>None\<close>, and raises on every other value.
\<close>

definition example_dumps :: "pyval \<Rightarrow> exn + string" where
  "example_dumps v =
     (if v = VDict [(''0'', VList [VStr ''variables.a'', VStr ''variables.b.0'']),
                    (''1'', VList [VStr ''variables.b.1''])]
      then Inr ''{0: [variables.a, variables.b.0], 1: [variables.b.1]}''
      else if v = VNone then Inr ''null''
      else Inl TypeError)"

subsection \<open>Construction and scoped use\<close>

text \<open>
  The HTTP client objects live in a store: the list of all client objects, an object's
  address being its position. An \<open>httpx.Client\<close> is its default headers and whether it
  has been closed.
\<close>

record httpx_client =
  client_headers :: "(string \<times> string) list option"
  is_closed :: bool

type_synonym store = "httpx_client list"

text \<open>\<open>httpx.Client(headers=headers)\<close>: a new, open client at a fresh address.\<close>

definition httpx_Client :: "(string \<times> string) list option \<Rightarrow> store \<Rightarrow> nat \<times> store" where
  "httpx_Client hs st = (length st, st @ [\<lparr>client_headers = hs, is_closed = False\<rparr>])"

text \<open>\<open>client.close()\<close>\<close>

definition close :: "nat \<Rightarrow> store \<Rightarrow> store" where
  "close a st = (if a < length st then st[a := (st ! a)\<lparr>is_closed := True\<rparr>] else st)"

text \<open>\<open>BaseClient.__init__\<close>; the argument \<open>http_client\<close> is the address of an injected client.\<close>

definition BaseClient_init ::
  "string \<Rightarrow> (string \<times> string) list option \<Rightarrow> nat option \<Rightarrow> store \<Rightarrow> base_client \<times> store" where
  "BaseClient_init u hs injected st =
     (case injected of
        Some a \<Rightarrow> (\<lparr>url = u, headers = hs, http_client = a\<rparr>, st)
      | None \<Rightarrow>
          (case httpx_Client hs st of
             (a, st') \<Rightarrow> (\<lparr>url = u, headers = hs, http_client = a\<rparr>, st')))"

definition enter :: "base_client \<Rightarrow> base_client" where
  "enter self = self"

text \<open>
  \<open>__exit__\<close>: \<open>exc_type\<close>, \<open>exc_val\<close> and \<open>exc_tb\<close> are \<open>None\<close> on a normal exit and describe
  the exception on an error exit. The method returns \<open>None\<close>, so an exception of the scope
  propagates.
\<close>

definition exit ::
  "base_client \<Rightarrow> string option \<Rightarrow> string option \<Rightarrow> string option \<Rightarrow> store \<Rightarrow> store" where
  "exit self exc_type exc_val exc_tb st = close (http_client self) st"

section \<open>Client generator (client\_generators/client.py)\<close>

subsection \<open>Syntax trees\<close>

text \<open>
  Modelled from the spec: the tree-builder primitives of codegen.py (not among the
  sources), which the spec takes as given constructors of syntax-tree nodes. A node is
  the constructor of its kind applied to the arguments the builder is called with; an
  optional argument that a call leaves out is \<open>None\<close>, or the empty list.
  \<open>Nodes\<close> is a plain Python list of nodes standing where one node is expected (the
  argument of the \<open>gql\<close> call).
\<close>

datatype expr =
    Name string
  | Constant string
  | Attribute expr string
  | Call expr "expr list" "(string \<times> expr) list"
  | Await expr
  | Subscript expr expr
  | Tuple "expr list"
  | Nodes "expr list"
  | Dict "expr list" "expr list"

datatype arg = Arg string "expr option"

datatype arguments = Arguments "arg list" "expr list"

datatype stmt =
    Assign "string list" expr "nat option"
  | AnnAssign string expr expr "nat option"
  | Return expr
  | Pass
  | FunctionDef string arguments "stmt list" expr "nat option"
  | AsyncFunctionDef string arguments "stmt list" expr "nat option"

record import_from =
  names :: "string list"
  module :: "string option"
  level :: "nat option"

record class_def =
  class_name :: string
  base_names :: "string list"
  body :: "stmt list"
  lineno :: "nat option"

datatype node = ImportFrom import_from | Stmt stmt | ClassDef class_def

datatype ast_module = Module "node list"

text \<open>
  Modelled from the spec: the builders of codegen.py that client.py calls, each the
  constructor of its node kind. \<open>generate_keyword\<close> builds a keyword argument, the pair of
  its name and value.
\<close>

definition generate_name :: "string \<Rightarrow> expr" where
  "generate_name n = Name n"

definition generate_constant :: "string \<Rightarrow> expr" where
  "generate_constant v = Constant v"

definition generate_attribute :: "expr \<Rightarrow> string \<Rightarrow> expr" where
  "generate_attribute v attr = Attribute v attr"

definition generate_keyword :: "string \<Rightarrow> expr \<Rightarrow> string \<times> expr" where
  "generate_keyword a v = (a, v)"

definition generate_call :: "expr \<Rightarrow> expr list \<Rightarrow> (string \<times> expr) list \<Rightarrow> expr" where
  "generate_call func args keywords = Call func args keywords"

definition generate_await :: "expr \<Rightarrow> expr" where
  "generate_await v = Await v"

definition generate_subscript :: "expr \<Rightarrow> expr \<Rightarrow> expr" where
  "generate_subscript v slice = Subscript v slice"

definition generate_tuple :: "expr list \<Rightarrow> expr" where
  "generate_tuple elts = Tuple elts"

definition generate_arg :: "string \<Rightarrow> expr option \<Rightarrow> arg" where
  "generate_arg n annotation = Arg n annotation"

definition generate_arguments :: "arg list \<Rightarrow> arguments" where
  "generate_arguments args = Arguments args []"

definition generate_assign :: "string list \<Rightarrow> expr \<Rightarrow> nat option \<Rightarrow> stmt" where
  "generate_assign targets v lno = Assign targets v lno"

definition generate_ann_assign :: "string \<Rightarrow> expr \<Rightarrow> expr \<Rightarrow> nat option \<Rightarrow> stmt" where
  "generate_ann_assign target annotation v lno = AnnAssign target annotation v lno"

definition generate_return :: "expr \<Rightarrow> stmt" where
  "generate_return v = Return v"

definition generate_method_definition :: "string \<Rightarrow> arguments \<Rightarrow> expr \<Rightarrow> stmt list \<Rightarrow> stmt" where
  "generate_method_definition n arguments return_type stmts =
     FunctionDef n arguments stmts return_type None"

definition generate_async_method_definition ::
  "string \<Rightarrow> arguments \<Rightarrow> expr \<Rightarrow> stmt list \<Rightarrow> stmt" where
  "generate_async_method_definition n arguments return_type stmts =
     AsyncFunctionDef n arguments stmts return_type None"

definition generate_class_def :: "string \<Rightarrow> string list \<Rightarrow> class_def" where
  "generate_class_def n bases = \<lparr>class_name = n, base_names = bases, body = [], lineno = None\<rparr>"

definition generate_import_from :: "string list \<Rightarrow> string option \<Rightarrow> nat option \<Rightarrow> import_from" where
  "generate_import_from ns from lv = \<lparr>names = ns, module = from, level = lv\<rparr>"

definition generate_module :: "node list \<Rightarrow> ast_module" where
  "generate_module nodes = Module nodes"

text \<open>
  The assignment \<open>node.lineno = n\<close> on a statement. The model keeps no line number for
  \<open>return\<close> and \<open>pass\<close>, whose line numbers the generator never sets.
\<close>

fun set_lineno :: "nat \<Rightarrow> stmt \<Rightarrow> stmt" where
  "set_lineno n (Assign targets v lno) = Assign targets v (Some n)"
| "set_lineno n (AnnAssign target annotation v lno) = AnnAssign target annotation v (Some n)"
| "set_lineno n (FunctionDef f arguments stmts return_type lno) =
     FunctionDef f arguments stmts return_type (Some n)"
| "set_lineno n (AsyncFunctionDef f arguments stmts return_type lno) =
     AsyncFunctionDef f arguments stmts return_type (Some n)"
| "set_lineno n (Return v) = Return v"
| "set_lineno n Pass = Pass"

subsection \<open>\<open>str.splitlines\<close>\<close>

text \<open>
  The line boundaries of \<open>str.splitlines\<close> among the characters below 256: line feed,
  vertical tab, form feed, carriage return, the three separators 28 to 30 and next line
  (133); a carriage return followed by a line feed is one boundary.
\<close>

definition line_boundary :: "char \<Rightarrow> bool" where
  "line_boundary c = (of_char c \<in> {10, 11, 12, 13, 28, 29, 30, 133 :: nat})"

fun splitlines_from :: "string \<Rightarrow> string \<Rightarrow> string list" where
  "splitlines_from cur [] = (if cur = [] then [] else [cur])"
| "splitlines_from cur [c] = (if line_boundary c then [cur] else [cur @ [c]])"
| "splitlines_from cur (c # d # cs) =
     (if of_char c = (13 :: nat) \<and> of_char d = (10 :: nat) then cur # splitlines_from [] cs
      else if line_boundary c then cur # splitlines_from [] (d # cs)
      else splitlines_from (cur @ [c]) (d # cs))"

definition splitlines :: "string \<Rightarrow> string list" where
  "splitlines s = splitlines_from [] s"

subsection \<open>Collaborators\<close>

text \<open>
  Modelled from the spec: the plugin-hook collection (\<open>PluginManager\<close> of
  plugins/manager.py, not among the sources): five hooks, each a pure transformation of
  a node into a node.
\<close>

record plugin_manager =
  generate_gql_function :: "stmt \<Rightarrow> stmt"
  generate_client_class :: "class_def \<Rightarrow> class_def"
  generate_client_method :: "stmt \<Rightarrow> stmt"
  generate_client_module :: "ast_module \<Rightarrow> ast_module"
  generate_client_import :: "import_from \<Rightarrow> import_from"

text \<open>
  The operation definition of the external parser, as far as the generator reads it: its
  variable definitions.
\<close>

record variable_definition =
  variable_name :: string
  graphql_type :: string
  has_default :: bool

record operation_definition =
  operation_name :: string
  variable_definitions :: "variable_definition list"

text \<open>
  The injected arguments generator (arguments.py) and \<open>generate_scalar_imports\<close>
  (scalars.py) are not among the sources. The generator is an object with a state \<open>'ag\<close>;
  its method \<open>generate\<close> returns the parameter list and the mapping expression and changes
  the state, its three getters read the state.
\<close>

record ('ag, 'sd) collaborators =
  ag_generate :: "variable_definition list \<Rightarrow> 'ag \<Rightarrow> (arguments \<times> expr) \<times> 'ag"
  get_used_inputs :: "'ag \<Rightarrow> string list"
  get_used_enums :: "'ag \<Rightarrow> string list"
  get_used_custom_scalars :: "'ag \<Rightarrow> string list"
  generate_scalar_imports :: "'sd \<Rightarrow> import_from list"

text \<open>The names of constants.py (not among the sources), taken as parameters.\<close>

record typing_names =
  OPTIONAL :: string
  LIST :: string
  ANY :: string
  UNION :: string
  TYPING_MODULE :: string

subsection \<open>The generator\<close>

record ('ag, 'sd) client_generator =
  name :: string
  enums_module_name :: string
  input_types_module_name :: string
  plugin_manager :: "plugin_manager option"
  custom_scalars :: "(string \<times> 'sd) list"
  arguments_generator :: 'ag
  import_stmts :: "import_from list"
  class_def :: class_def
  gql_func_name :: string
  operation_str_variable :: string
  variables_dict_variable :: string
  response_variable :: string
  data_variable :: string

text \<open>
  \<open>_add_import\<close>. \<open>import_.names and import_.module\<close> holds when the list of names is not
  empty and the module is a non-empty string.
\<close>

definition add_import ::
  "import_from option \<Rightarrow> ('ag, 'sd) client_generator \<Rightarrow> ('ag, 'sd) client_generator" where
  "add_import import_opt self =
     (case import_opt of
        None \<Rightarrow> self
      | Some imp \<Rightarrow>
          (let imp' = (case plugin_manager self of
                         Some pm \<Rightarrow> generate_client_import pm imp
                       | None \<Rightarrow> imp)
           in if names imp' \<noteq> [] \<and> (case module imp' of None \<Rightarrow> False | Some m \<Rightarrow> m \<noteq> [])
              then self\<lparr>import_stmts := import_stmts self @ [imp']\<rparr>
              else self))"

text \<open>\<open>__init__\<close>; \<open>custom_scalars if custom_scalars else {}\<close> is the empty dictionary for \<open>None\<close>.\<close>

definition ClientGenerator_init ::
  "typing_names \<Rightarrow> string \<Rightarrow> string \<Rightarrow> string \<Rightarrow> string \<Rightarrow> 'ag \<Rightarrow> import_from option
     \<Rightarrow> import_from option \<Rightarrow> (string \<times> 'sd) list option \<Rightarrow> plugin_manager option
     \<Rightarrow> ('ag, 'sd) client_generator" where
  "ClientGenerator_init T n base_client_name enums_module input_types_module ag
     base_client_import unset_import scalars pm =
     add_import unset_import
       (add_import base_client_import
         (add_import
            (Some (generate_import_from [OPTIONAL T, LIST T, ANY T, UNION T]
                     (Some (TYPING_MODULE T)) None))
            \<lparr>name = n, enums_module_name = enums_module,
             input_types_module_name = input_types_module, plugin_manager = pm,
             custom_scalars = (case scalars of None \<Rightarrow> [] | Some d \<Rightarrow> d),
             arguments_generator = ag, import_stmts = [],
             class_def = generate_class_def n [base_client_name],
             gql_func_name = ''gql'', operation_str_variable = ''query'',
             variables_dict_variable = ''variables'', response_variable = ''response'',
             data_variable = ''data''\<rparr>))"

definition generate_operation_str_assign ::
  "('ag, 'sd) client_generator \<Rightarrow> string \<Rightarrow> nat option \<Rightarrow> stmt" where
  "generate_operation_str_assign self operation_str lno =
     generate_assign [operation_str_variable self]
       (generate_call (generate_name (gql_func_name self))
          [Nodes (map (\<lambda>l. generate_constant (l @ [char_of (10 :: nat)])) (splitlines operation_str))]
          [])
       lno"

definition generate_variables_assign ::
  "('ag, 'sd) client_generator \<Rightarrow> expr \<Rightarrow> nat option \<Rightarrow> stmt" where
  "generate_variables_assign self arguments_dict lno =
     generate_ann_assign (variables_dict_variable self)
       (generate_subscript (generate_name ''dict'')
          (generate_tuple [generate_name ''str'', generate_name ''object'']))
       arguments_dict lno"

definition generate_execute_call :: "('ag, 'sd) client_generator \<Rightarrow> expr" where
  "generate_execute_call self =
     generate_call (generate_attribute (generate_name ''self'') ''execute'') []
       [generate_keyword ''query'' (generate_name (operation_str_variable self)),
        generate_keyword ''variables'' (generate_name (variables_dict_variable self))]"

definition generate_async_response_assign ::
  "('ag, 'sd) client_generator \<Rightarrow> nat option \<Rightarrow> stmt" where
  "generate_async_response_assign self lno =
     generate_assign [response_variable self] (generate_await (generate_execute_call self)) lno"

definition generate_response_assign :: "('ag, 'sd) client_generator \<Rightarrow> nat option \<Rightarrow> stmt" where
  "generate_response_assign self lno =
     generate_assign [response_variable self] (generate_execute_call self) lno"

definition generate_data_retrieval :: "('ag, 'sd) client_generator \<Rightarrow> stmt" where
  "generate_data_retrieval self =
     generate_assign [data_variable self]
       (generate_call (generate_attribute (generate_name ''self'') ''get_data'')
          [generate_name (response_variable self)] [])
       None"

definition generate_return_parsed_obj :: "('ag, 'sd) client_generator \<Rightarrow> string \<Rightarrow> stmt" where
  "generate_return_parsed_obj self return_type =
     generate_return
       (generate_call (generate_attribute (generate_name return_type) ''parse_obj'')
          [generate_name (data_variable self)] [])"

definition generate_async_method ::
  "('ag, 'sd) client_generator \<Rightarrow> string \<Rightarrow> string \<Rightarrow> arguments \<Rightarrow> expr \<Rightarrow> string \<Rightarrow> stmt" where
  "generate_async_method self n return_type arguments arguments_dict operation_str =
     generate_async_method_definition n arguments (generate_name return_type)
       [generate_operation_str_assign self operation_str (Some 1),
        generate_variables_assign self arguments_dict (Some 2),
        generate_async_response_assign self (Some 3),
        generate_data_retrieval self,
        generate_return_parsed_obj self return_type]"

definition generate_method ::
  "('ag, 'sd) client_generator \<Rightarrow> string \<Rightarrow> string \<Rightarrow> arguments \<Rightarrow> expr \<Rightarrow> string \<Rightarrow> stmt" where
  "generate_method self n return_type arguments arguments_dict operation_str =
     generate_method_definition n arguments (generate_name return_type)
       [generate_operation_str_assign self operation_str (Some 1),
        generate_variables_assign self arguments_dict (Some 2),
        generate_response_assign self (Some 3),
        generate_data_retrieval self,
        generate_return_parsed_obj self return_type]"

definition generate_gql_func :: "('ag, 'sd) client_generator \<Rightarrow> stmt" where
  "generate_gql_func self =
     generate_method_definition (gql_func_name self)
       (generate_arguments [generate_arg ''q'' (Some (generate_name ''str''))])
       (generate_name ''str'')
       [generate_return (generate_name ''q'')]"

text \<open>The arguments of one call of \<open>add_method\<close>.\<close>

record method_call =
  call_definition :: operation_definition
  call_name :: string
  call_return_type :: string
  call_return_type_module :: string
  call_operation_str :: string
  call_async :: bool

text \<open>
  \<open>add_method\<close> up to the hook: the method definition with its line number, as it is
  handed to \<open>generate_client_method\<close>, for the parameter list and mapping expression the
  arguments generator returned.
\<close>

definition method_def_of ::
  "('ag, 'sd) client_generator \<Rightarrow> method_call \<Rightarrow> arguments \<Rightarrow> expr \<Rightarrow> stmt" where
  "method_def_of self c arguments arguments_dict =
     set_lineno (length (body (class_def self)) + 1)
       (if call_async c
        then generate_async_method self (call_name c) (call_return_type c) arguments
               arguments_dict (call_operation_str c)
        else generate_method self (call_name c) (call_return_type c) arguments
               arguments_dict (call_operation_str c))"

definition add_method ::
  "('ag, 'sd) collaborators \<Rightarrow> method_call \<Rightarrow> ('ag, 'sd) client_generator
     \<Rightarrow> ('ag, 'sd) client_generator" where
  "add_method C c self =
     (case ag_generate C (variable_definitions (call_definition c)) (arguments_generator self) of
        ((arguments, arguments_dict), ag') \<Rightarrow>
          (let self1 = self\<lparr>arguments_generator := ag'\<rparr>;
               method_def = method_def_of self1 c arguments arguments_dict;
               method_def' = (case plugin_manager self1 of
                                Some pm \<Rightarrow> generate_client_method pm method_def
                              | None \<Rightarrow> method_def);
               self2 = self1\<lparr>class_def :=
                         (class_def self1)\<lparr>body := body (class_def self1) @ [method_def']\<rparr>\<rparr>
           in add_import
                (Some (generate_import_from [call_return_type c]
                         (Some (call_return_type_module c)) (Some 1)))
                self2))"

text \<open>
  The loop of \<open>generate\<close> over the used custom scalars; the subscript
  \<open>self.custom_scalars[custom_scalar_name]\<close> raises \<open>KeyError\<close> on a missing name, which
  ends \<open>generate\<close> with the imports added so far.
\<close>

fun add_scalar_imports ::
  "('ag, 'sd) collaborators \<Rightarrow> string list \<Rightarrow> ('ag, 'sd) client_generator
     \<Rightarrow> exn option \<times> ('ag, 'sd) client_generator" where
  "add_scalar_imports C [] self = (None, self)"
| "add_scalar_imports C (custom_scalar_name # rest) self =
     (case map_of (custom_scalars self) custom_scalar_name of
        None \<Rightarrow> (Some (KeyError custom_scalar_name), self)
      | Some scalar_data \<Rightarrow>
          add_scalar_imports C rest
            (foldl (\<lambda>s imp. add_import (Some imp) s) self (generate_scalar_imports C scalar_data)))"

text \<open>\<open>generate\<close>: the module, or the exception raised, and the generator as it is left.\<close>

definition generate ::
  "('ag, 'sd) collaborators \<Rightarrow> ('ag, 'sd) client_generator
     \<Rightarrow> (exn + ast_module) \<times> ('ag, 'sd) client_generator" where
  "generate C self =
     (let self1 = add_import
                    (Some (generate_import_from (get_used_inputs C (arguments_generator self))
                             (Some (input_types_module_name self)) (Some 1)))
                    self;
          self2 = add_import
                    (Some (generate_import_from (get_used_enums C (arguments_generator self1))
                             (Some (enums_module_name self1)) (Some 1)))
                    self1
      in case add_scalar_imports C (get_used_custom_scalars C (arguments_generator self2)) self2 of
           (Some e, self3) \<Rightarrow> (Inl e, self3)
         | (None, self3) \<Rightarrow>
             (let gql_func = set_lineno (length (import_stmts self3) + 1) (generate_gql_func self3);
                  gql_func' = (case plugin_manager self3 of
                                 Some pm \<Rightarrow> generate_gql_function pm gql_func
                               | None \<Rightarrow> gql_func);
                  cd1 = (class_def self3)\<lparr>lineno := Some (length (import_stmts self3) + 3)\<rparr>;
                  cd2 = (if body cd1 = [] then cd1\<lparr>body := body cd1 @ [Pass]\<rparr> else cd1);
                  cd3 = (case plugin_manager self3 of
                           Some pm \<Rightarrow> generate_client_class pm cd2
                         | None \<Rightarrow> cd2);
                  self4 = self3\<lparr>class_def := cd3\<rparr>;
                  m = generate_module
                        (map ImportFrom (import_stmts self4) @ [Stmt gql_func', ClassDef (class_def self4)]);
                  m' = (case plugin_manager self4 of
                          Some pm \<Rightarrow> generate_client_module pm m
                        | None \<Rightarrow> m)
              in (Inr m', self4)))"

text \<open>A generation run: the calls of \<open>add_method\<close> in their order.\<close>

definition add_methods ::
  "('ag, 'sd) collaborators \<Rightarrow> method_call list \<Rightarrow> ('ag, 'sd) client_generator
     \<Rightarrow> ('ag, 'sd) client_generator" where
  "add_methods C cs self = foldl (\<lambda>s c. add_method C c s) self cs"

text \<open>
  The method definition that a call of \<open>add_method\<close> appends to the class body when the
  generator is in the state \<open>self\<close>: the method built from what the arguments generator
  returns, after the hook \<open>generate_client_method\<close>.
\<close>

definition appended_method ::
  "('ag, 'sd) collaborators \<Rightarrow> method_call \<Rightarrow> ('ag, 'sd) client_generator \<Rightarrow> stmt" where
  "appended_method C c self =
     (case ag_generate C (variable_definitions (call_definition c)) (arguments_generator self) of
        ((arguments, arguments_dict), ag') \<Rightarrow>
          (let method_def =
                 method_def_of (self\<lparr>arguments_generator := ag'\<rparr>) c arguments arguments_dict
           in case plugin_manager self of
                Some pm \<Rightarrow> generate_client_method pm method_def
              | None \<Rightarrow> method_def))"

text \<open>The plugin-hook collection in which every hook is the identity function.\<close>

definition identity_hooks :: plugin_manager where
  "identity_hooks =
     \<lparr>generate_gql_function = (\<lambda>n. n), generate_client_class = (\<lambda>n. n),
      generate_client_method = (\<lambda>n. n), generate_client_module = (\<lambda>n. n),
      generate_client_import = (\<lambda>n. n)\<rparr>"

text \<open>
  Modelled from the spec: \<open>ArgumentsGenerator.generate\<close> of arguments.py, not among the
  sources. The spec: given the ordered list of variable definitions, it produces a
  parameter list with one parameter per variable, each with a type annotation and an
  optional default, after the implicit receiver, and an expression constructing a mapping
  literal from parameter name to parameter value; as a side effect it records the input
  types, enums and custom scalars referenced. What the spec leaves open is a parameter:
  the annotation of a variable's type, its default, its value in the mapping, and the
  recording.
\<close>

record 'ag arguments_rules =
  annotation_of :: "variable_definition \<Rightarrow> expr"
  default_of :: "variable_definition \<Rightarrow> expr option"
  mapping_value_of :: "variable_definition \<Rightarrow> expr"
  record_referenced :: "variable_definition \<Rightarrow> 'ag \<Rightarrow> 'ag"

definition ArgumentsGenerator_generate ::
  "'ag arguments_rules \<Rightarrow> variable_definition list \<Rightarrow> 'ag \<Rightarrow> (arguments \<times> expr) \<times> 'ag" where
  "ArgumentsGenerator_generate R vds ag =
     ((Arguments
         (Arg ''self'' None # map (\<lambda>vd. Arg (variable_name vd) (Some (annotation_of R vd))) vds)
         (List.map_filter (default_of R) vds),
       Dict (map (\<lambda>vd. Constant (variable_name vd)) vds) (map (mapping_value_of R) vds)),
      foldl (\<lambda>a vd. record_referenced R vd a) ag vds)"

subsection \<open>A concrete run\<close>

text \<open>
  An arguments generator without state, built on the modelled \<open>generate\<close>, that reports one
  used enum; a generator for the class \<open>Client\<close>; and a call of \<open>add_method\<close> for an operation
  with one variable.
\<close>

definition example_collaborators :: "(unit, unit) collaborators" where
  "example_collaborators = \<lparr>ag_generate = ArgumentsGenerator_generate
             \<lparr>annotation_of = (\<lambda>vd. Name (graphql_type vd)), default_of = (\<lambda>vd. None),
              mapping_value_of = (\<lambda>vd. Name (variable_name vd)),
              record_referenced = (\<lambda>vd a. a)\<rparr>,
           get_used_inputs = (\<lambda>a. []), get_used_enums = (\<lambda>a. [''Color'']),
           get_used_custom_scalars = (\<lambda>a. []), generate_scalar_imports = (\<lambda>d. [])\<rparr>"


definition example_init :: "plugin_manager option \<Rightarrow> (unit, unit) client_generator" where
  "example_init pm = ClientGenerator_init
      \<lparr>OPTIONAL = ''Optional'', LIST = ''List'', ANY = ''Any'', UNION = ''Union'',
       TYPING_MODULE = ''typing''\<rparr>
      ''Client'' ''BaseClient'' ''enums'' ''input_types'' () None None None pm"

definition example_call :: "string \<Rightarrow> bool \<Rightarrow> method_call" where
  "example_call n a =
     \<lparr>call_definition = \<lparr>operation_name = n,
        variable_definitions = [\<lparr>variable_name = ''id'', graphql_type = ''str'', has_default = False\<rparr>]\<rparr>,
      call_name = n, call_return_type = ''R'', call_return_type_module = ''r'',
      call_operation_str = ''query Q {'' @ [char_of (10::nat)] @ ''}'', call_async = a\<rparr>"

section \<open>Properties of the runtime base client\<close>

subsection \<open>Indices are distinct keys\<close>

lemma of_char_digit_char: "d < 10 \<Longrightarrow> of_char (digit_char d) = 48 + d"
  by (simp add: digit_char_def)

lemma digit_value_digit_char: "d < 10 \<Longrightarrow> digit_value (digit_char d) = d"
  by (simp add: digit_value_def of_char_digit_char)

lemma decimal_value_str_nat: "decimal_value (str_nat n) = n"
proof (induction n rule: str_nat.induct)
  case (1 n)
  show ?case
  proof (cases "n < 10")
    case True
    then show ?thesis
      by (subst str_nat.simps) (simp add: decimal_value_def digit_value_digit_char)
  next
    case False
    with 1 have "decimal_value (str_nat (n div 10)) = n div 10" by simp
    with False show ?thesis
      by (subst str_nat.simps) (simp add: decimal_value_def digit_value_digit_char)
  qed
qed

lemma str_nat_inj: "str_nat a = str_nat b \<Longrightarrow> a = b"
  by (metis decimal_value_str_nat)

lemma update_fresh: "k \<notin> fst ` set al \<Longrightarrow> AList.update k v al = al @ [(k, v)]"
  by (induction al) auto

subsection \<open>File extraction follows the walk\<close>

lemma record_all_Nil: "record_all [] fm = fm"
  by (simp add: record_all_def)

lemma record_all_Cons: "record_all (e # occ) fm = record_all occ (record_file (fst e) (snd e) fm)"
  by (simp add: record_all_def)

lemma record_all_append: "record_all (xs @ ys) fm = record_all ys (record_all xs fm)"
  by (simp add: record_all_def)

lemma separate_snd:
  "snd (separate_files p v fm) = record_all (file_occurrences p v) fm"
  "snd (separate_list p i vs acc fm) = record_all (list_occurrences p i vs) fm"
  "snd (separate_dict p d dacc fm) = record_all (dict_occurrences p d) fm"
proof (induction p v fm and p i vs acc fm and p d dacc fm
    rule: separate_files_separate_list_separate_dict.induct)
  case (1 path obj fm)
  then show ?case by (simp add: split_beta)
next
  case (2 path obj fm)
  then show ?case by (simp add: split_beta)
next
  case (3 path obj fm)
  then show ?case by (simp add: record_all_Nil record_all_Cons)
next
  case (13 path index v rest nulled_list fm)
  then show ?case
    by (simp add: split_beta record_all_append prod.case_eq_if)
       (metis prod.collapse)
next
  case (15 path key v rest nulled_dict fm)
  then show ?case
    by (simp add: split_beta record_all_append prod.case_eq_if)
       (metis prod.collapse)
qed (simp_all add: record_all_Nil)

lemma keys_record_file:
  "map fst (record_file f p fm) = (if f \<in> set (map fst fm) then map fst fm else map fst fm @ [f])"
  by (auto simp: record_file_def update_keys split: option.splits
      dest: map_of_SomeD simp: map_of_eq_None_iff image_iff weak_map_of_SomeI)

lemma first_occurrences_filter:
  "first_occurrences (filter P xs) = filter P (first_occurrences xs)"
  by (induction xs) (auto simp: removeAll_filter_not_eq filter_empty_conv intro: filter_cong)

lemma keys_record_all:
  "map fst (record_all occ fm) =
     map fst fm @ first_occurrences (filter (\<lambda>f. f \<notin> set (map fst fm)) (map fst occ))"
proof (induction occ arbitrary: fm)
  case Nil
  then show ?case by (simp add: record_all_Nil)
next
  case (Cons e occ)
  show ?case
  proof (cases "fst e \<in> set (map fst fm)")
    case True
    then show ?thesis
      by (simp add: record_all_Cons Cons.IH keys_record_file)
  next
    case False
    have eq: "filter (\<lambda>f. f \<notin> set (map fst (record_file (fst e) (snd e) fm))) (map fst occ) =
          filter (\<lambda>f. fst e \<noteq> f) (filter (\<lambda>f. f \<notin> set (map fst fm)) (map fst occ))"
      using False by (auto simp: keys_record_file intro: filter_cong)
    have "map fst (record_all (e # occ) fm) =
       map fst (record_file (fst e) (snd e) fm) @
         first_occurrences (filter (\<lambda>f. f \<notin> set (map fst (record_file (fst e) (snd e) fm))) (map fst occ))"
      by (simp only: record_all_Cons Cons.IH)
    also have "\<dots> = map fst fm @ [fst e] @
         removeAll (fst e) (first_occurrences (filter (\<lambda>f. f \<notin> set (map fst fm)) (map fst occ)))"
      using False by (simp only: eq first_occurrences_filter removeAll_filter_not_eq)
        (simp add: keys_record_file)
    finally show ?thesis using False by simp
  qed
qed

lemma lookup_record_file:
  "map_of (record_file f p fm) g =
     (if g = f then Some ((case map_of fm f of None \<Rightarrow> [] | Some ps \<Rightarrow> ps) @ [p]) else map_of fm g)"
  by (simp add: record_file_def update_conv' split: option.splits)

lemma lookup_record_all:
  "map_of (record_all occ fm) f =
     (if paths_of f occ = [] then map_of fm f
      else Some ((case map_of fm f of None \<Rightarrow> [] | Some ps \<Rightarrow> ps) @ paths_of f occ))"
proof (induction occ arbitrary: fm)
  case Nil
  then show ?case by (simp add: record_all_Nil paths_of_def)
next
  case (Cons e occ)
  then show ?case
    by (simp add: record_all_Cons lookup_record_file paths_of_def)
qed

lemma distinct_first_occurrences: "distinct (first_occurrences xs)"
  by (induction xs) (auto simp: distinct_removeAll)

lemma set_first_occurrences: "set (first_occurrences xs) = set xs"
  by (induction xs) auto

lemma get_files_keys:
  "map fst (snd (get_files_from_variables vars)) =
     first_occurrences (map fst (file_occurrences ''variables'' (VDict vars)))"
  by (simp only: get_files_from_variables_def separate_snd keys_record_all) simp

lemma get_files_lookup:
  "map_of (snd (get_files_from_variables vars)) f =
     (if paths_of f (file_occurrences ''variables'' (VDict vars)) = [] then None
      else Some (paths_of f (file_occurrences ''variables'' (VDict vars))))"
  by (simp only: get_files_from_variables_def separate_snd lookup_record_all) simp

lemma files_map_of_enumerate:
  "distinct (map fst fm) \<Longrightarrow> set es \<subseteq> set fm \<Longrightarrow> fst ` set acc \<subseteq> str_nat ` {..<n} \<Longrightarrow>
   files_map_of fm (enumerate n (map fst es)) acc =
     Inr (acc @ map (\<lambda>(i, e). (str_nat i, snd e)) (enumerate n es))"
proof (induction es arbitrary: n acc)
  case Nil
  then show ?case by simp
next
  case (Cons e es)
  have look: "map_of fm (fst e) = Some (snd e)"
    using Cons.prems(1,2) by (cases e) simp
  have fresh: "str_nat n \<notin> fst ` set acc"
  proof
    assume "str_nat n \<in> fst ` set acc"
    with Cons.prems(3) obtain m where "m < n" "str_nat n = str_nat m" by auto
    then show False by (auto dest: str_nat_inj)
  qed
  have sub: "fst ` set (acc @ [(str_nat n, snd e)]) \<subseteq> str_nat ` {..<Suc n}"
    using Cons.prems(3) by (auto simp: less_Suc_eq)
  have "files_map_of fm (enumerate (Suc n) (map fst es)) (acc @ [(str_nat n, snd e)]) =
        Inr ((acc @ [(str_nat n, snd e)]) @ map (\<lambda>(i, e). (str_nat i, snd e)) (enumerate (Suc n) es))"
    using Cons.prems(1,2) sub by (intro Cons.IH) auto
  then show ?case
    by (simp add: look update_fresh [OF fresh])
qed

lemma files_of_enumerate_aux:
  "fst ` set acc \<subseteq> str_nat ` {..<n} \<Longrightarrow>
   foldl (\<lambda>acc (i, file). AList.update (str_nat i) file acc) acc (enumerate n ks) =
     acc @ map (\<lambda>(i, file). (str_nat i, file)) (enumerate n ks)"
proof (induction ks arbitrary: n acc)
  case Nil
  then show ?case by simp
next
  case (Cons k ks)
  have fresh: "str_nat n \<notin> fst ` set acc"
  proof
    assume "str_nat n \<in> fst ` set acc"
    with Cons.prems obtain m where "m < n" "str_nat n = str_nat m" by auto
    then show False by (auto dest: str_nat_inj)
  qed
  have sub: "fst ` set (acc @ [(str_nat n, k)]) \<subseteq> str_nat ` {..<Suc n}"
    using Cons.prems by (auto simp: less_Suc_eq)
  show ?case
    using Cons.IH [OF sub] by (simp add: update_fresh [OF fresh])
qed

lemma files_of_enumerate:
  "files_of (enumerate 0 ks) = map (\<lambda>(i, file). (str_nat i, file)) (enumerate 0 ks)"
  using files_of_enumerate_aux [of "[]" 0 ks] by (simp add: files_of_def)

lemma files_map_of_keys:
  "distinct (map fst fm) \<Longrightarrow>
   files_map_of fm (enumerate 0 (map fst fm)) [] =
     Inr (map (\<lambda>(i, e). (str_nat i, snd e)) (enumerate 0 fm))"
  using files_map_of_enumerate [of fm fm "[]" 0] by simp

lemma filter_key_single:
  "distinct (map fst xs) \<Longrightarrow> (k, v) \<in> set xs \<Longrightarrow> filter (\<lambda>e. fst e = k) xs = [(k, v)]"
proof (induction xs)
  case Nil
  then show ?case by simp
next
  case (Cons x xs)
  show ?case
  proof (cases "x = (k, v)")
    case True
    with Cons.prems(1) have "filter (\<lambda>e. fst e = k) xs = []"
      by (auto simp: filter_empty_conv image_iff)
    with True show ?thesis by simp
  next
    case False
    with Cons.prems have "(k, v) \<in> set xs" "fst x \<noteq> k"
      by (auto simp: image_iff)
    with Cons show ?thesis by simp
  qed
qed

lemma distinct_get_files_keys: "distinct (map fst (snd (get_files_from_variables vars)))"
  by (simp only: get_files_keys distinct_first_occurrences)

lemma execute_multipart_extracted:
  assumes "distinct (map fst fm)"
  shows "execute_multipart dumps self payload fm =
     (case dumps payload of
        Inl e \<Rightarrow> Inl e
      | Inr operations \<Rightarrow>
          (case dumps (files_map_value (map (\<lambda>(i, e). (str_nat i, snd e)) (enumerate 0 fm))) of
             Inl e \<Rightarrow> Inl e
           | Inr map_field \<Rightarrow>
               Inr \<lparr>post_url = url self, post_content = None, post_headers = None,
                    post_data = Some [(''operations'', operations), (''map'', map_field)],
                    post_files = Some (map (\<lambda>(i, e). (str_nat i, fst e)) (enumerate 0 fm))\<rparr>))"
proof -
  have "map (\<lambda>(i, file). (str_nat i, file)) (enumerate 0 (map fst fm)) =
        map (\<lambda>(i, e). (str_nat i, fst e)) (enumerate 0 fm)"
    by (simp add: enumerate_eq_zip zip_map2 split_beta)
  then show ?thesis
    by (simp add: execute_multipart_def files_map_of_keys [OF assms] files_of_enumerate)
qed

lemma str_nat_keys_distinct:
  "distinct (map fst (map (\<lambda>(i, e). (str_nat i, f e)) (enumerate n xs)))"
proof -
  have "map fst (map (\<lambda>(i, e). (str_nat i, f e)) ys) = map str_nat (map fst ys)" for ys
    by (induction ys) auto
  from this [of "enumerate n xs"]
  have eq: "map fst (map (\<lambda>(i, e). (str_nat i, f e)) (enumerate n xs)) =
      map str_nat [n..<n + length xs]"
    by (simp only: map_fst_enumerate)
  have "inj_on str_nat A" for A
    by (rule inj_onI) (rule str_nat_inj)
  then have "distinct (map str_nat [n..<n + length xs])"
    by (simp add: distinct_map)
  then show ?thesis
    by (simp only: eq)
qed

lemma execute_multipart_request:
  assumes "distinct (map fst fm)"
  shows "execute_multipart dumps self payload fm =
     (case dumps payload of
        Inl e \<Rightarrow> Inl e
      | Inr operations \<Rightarrow>
          (case dumps (VDict (map (\<lambda>(i, e). (str_nat i, VList (map VStr (snd e))))
                               (enumerate 0 fm))) of
             Inl e \<Rightarrow> Inl e
           | Inr map_field \<Rightarrow>
               Inr \<lparr>post_url = url self, post_content = None, post_headers = None,
                    post_data = Some [(''operations'', operations), (''map'', map_field)],
                    post_files = Some (map (\<lambda>(i, e). (str_nat i, fst e)) (enumerate 0 fm))\<rparr>))"
proof -
  have "files_map_value (map (\<lambda>(i, e). (str_nat i, snd e)) (enumerate 0 fm)) =
        VDict (map (\<lambda>(i, e). (str_nat i, VList (map VStr (snd e)))) (enumerate 0 fm))"
    by (simp add: files_map_value_def split_beta)
  then show ?thesis
    by (simp only: execute_multipart_extracted [OF assms])
qed

text \<open>
  Claim C5. When one file handle is bound at two argument paths of the variables
  structure, file extraction yields a File Reference Map with a single entry for the
  handle, whose list holds both dotted paths (it is the list of all paths the handle is
  bound at, in encounter order); the handles of the map are the distinct handles in the
  order the walk first encounters them. The multipart request gives the entry at position
  \<open>i\<close> the string index \<open>str(i)\<close>: the value serialized into its \<open>map\<close> field is the dictionary
  from \<open>str(i)\<close> to the list of the entry's paths, so it lists both paths under the one
  index of the handle, its keys are distinct, and the file part under the same index is
  the handle.
\<close>

theorem file_bound_at_two_paths:
  assumes "get_files_from_variables vars = (nulled_variables, fm)"
    and "(file, p1) \<in> set (file_occurrences ''variables'' (VDict vars))"
    and "(file, p2) \<in> set (file_occurrences ''variables'' (VDict vars))"
  shows "\<exists>i paths. i < length fm \<and> fm ! i = (file, paths)
           \<and> paths = paths_of file (file_occurrences ''variables'' (VDict vars))
           \<and> p1 \<in> set paths \<and> p2 \<in> set paths
           \<and> (\<forall>j < length fm. fst (fm ! j) = file \<longrightarrow> j = i)
           \<and> map fst fm = first_occurrences (map fst (file_occurrences ''variables'' (VDict vars)))
           \<and> execute_multipart dumps self payload fm =
               (case dumps payload of
                  Inl e \<Rightarrow> Inl e
                | Inr operations \<Rightarrow>
                    (case dumps (VDict (map (\<lambda>(i, e). (str_nat i, VList (map VStr (snd e))))
                                         (enumerate 0 fm))) of
                       Inl e \<Rightarrow> Inl e
                     | Inr map_field \<Rightarrow>
                         Inr \<lparr>post_url = url self, post_content = None, post_headers = None,
                              post_data = Some [(''operations'', operations), (''map'', map_field)],
                              post_files = Some (map (\<lambda>(i, e). (str_nat i, fst e)) (enumerate 0 fm))\<rparr>))
           \<and> map (\<lambda>(i, e). (str_nat i, VList (map VStr (snd e)))) (enumerate 0 fm) ! i =
               (str_nat i, VList (map VStr paths))
           \<and> VStr p1 \<in> set (map VStr paths) \<and> VStr p2 \<in> set (map VStr paths)
           \<and> distinct (map fst (map (\<lambda>(i, e). (str_nat i, VList (map VStr (snd e))))
                                  (enumerate 0 fm)))
           \<and> map (\<lambda>(i, e). (str_nat i, fst e)) (enumerate 0 fm) ! i = (str_nat i, file)"
proof -
  let ?occ = "file_occurrences ''variables'' (VDict vars)"
  let ?paths = "paths_of file ?occ"
  have fm: "fm = snd (get_files_from_variables vars)"
    using assms(1) by simp
  have keys: "map fst fm = first_occurrences (map fst ?occ)"
    by (simp only: fm get_files_keys)
  have dist: "distinct (map fst fm)"
    by (simp only: fm distinct_get_files_keys)
  have p1: "p1 \<in> set ?paths" and p2: "p2 \<in> set ?paths"
    using assms(2,3) by (auto simp: paths_of_def image_iff)
  then have v: "VStr p1 \<in> set (map VStr ?paths)" "VStr p2 \<in> set (map VStr ?paths)"
    by simp_all
  from p1 have "?paths \<noteq> []" by auto
  then have look: "map_of fm file = Some ?paths"
    by (simp only: fm get_files_lookup) simp
  then have mem: "(file, ?paths) \<in> set fm"
    by (rule map_of_SomeD)
  then obtain i where i: "i < length fm" "fm ! i = (file, ?paths)"
    by (auto simp: in_set_conv_nth)
  have uniq: "\<forall>j < length fm. fst (fm ! j) = file \<longrightarrow> j = i"
  proof (intro allI impI)
    fix j assume j: "j < length fm" "fst (fm ! j) = file"
    have "(map fst fm ! j = map fst fm ! i) = (j = i)"
      using dist j(1) i(1) by (intro nth_eq_iff_index_eq) simp_all
    with j i show "j = i" by simp
  qed
  have m1: "map (\<lambda>(i, e). (str_nat i, VList (map VStr (snd e)))) (enumerate 0 fm) ! i =
      (str_nat i, VList (map VStr ?paths))"
    using i by (simp add: nth_enumerate_eq)
  have m2: "map (\<lambda>(i, e). (str_nat i, fst e)) (enumerate 0 fm) ! i = (str_nat i, file)"
    using i by (simp add: nth_enumerate_eq)
  have d: "distinct (map fst (map (\<lambda>(i, e). (str_nat i, VList (map VStr (snd e))))
      (enumerate 0 fm)))"
    by (rule str_nat_keys_distinct)
  show ?thesis
    using i p1 p2 v uniq keys m1 m2 d execute_multipart_request [OF dist, of dumps self payload]
    by blast
qed

text \<open>
  The theorem at a concrete input: a handle bound at \<open>variables.a\<close> and \<open>variables.b.0\<close>, a
  second handle, and the request with the indices 0 and 1.
\<close>

theorem file_bound_at_two_paths_witness:
  "get_files_from_variables
      [(''a'', VIOBase (IOBase 0 None)),
       (''b'', VList [VIOBase (IOBase 0 None), VIOBase (IOBase 1 (Some ''rb''))])] =
     (VDict [(''a'', VNone), (''b'', VList [VNone, VNone])],
      [(IOBase 0 None, [''variables.a'', ''variables.b.0'']),
       (IOBase 1 (Some ''rb''), [''variables.b.1''])])
   \<and> execute_multipart example_dumps \<lparr>url = ''u'', headers = None, http_client = 0\<rparr> VNone
        [(IOBase 0 None, [''variables.a'', ''variables.b.0'']),
         (IOBase 1 (Some ''rb''), [''variables.b.1''])] =
       Inr \<lparr>post_url = ''u'', post_content = None, post_headers = None,
            post_data = Some [(''operations'', ''null''),
                              (''map'', ''{0: [variables.a, variables.b.0], 1: [variables.b.1]}'')],
            post_files = Some [(''0'', IOBase 0 None), (''1'', IOBase 1 (Some ''rb''))]\<rparr>"
proof -
  let ?vars = "[(''a'', VIOBase (IOBase 0 None)),
       (''b'', VList [VIOBase (IOBase 0 None), VIOBase (IOBase 1 (Some ''rb''))])]"
  let ?fm = "[(IOBase 0 None, [''variables.a'', ''variables.b.0'']),
       (IOBase 1 (Some ''rb''), [''variables.b.1''])]"
  have s0: "str_nat 0 = ''0''" and s1: "str_nat (Suc 0) = ''1''"
    by code_simp+
  have h1: "get_files_from_variables ?vars = (VDict [(''a'', VNone), (''b'', VList [VNone, VNone])], ?fm)"
    by (simp add: get_files_from_variables_def is_binary_def record_file_def s0 s1)
  have h2: "(IOBase 0 None, ''variables.a'') \<in> set (file_occurrences ''variables'' (VDict ?vars))"
    by (simp add: is_binary_def s0 s1)
  have h3: "(IOBase 0 None, ''variables.b.0'') \<in> set (file_occurrences ''variables'' (VDict ?vars))"
    by (simp add: is_binary_def s0 s1)
  from file_bound_at_two_paths [OF h1 h2 h3, of example_dumps
         "\<lparr>url = ''u'', headers = None, http_client = 0\<rparr>" VNone]
  have "execute_multipart example_dumps \<lparr>url = ''u'', headers = None, http_client = 0\<rparr> VNone ?fm =
       Inr \<lparr>post_url = ''u'', post_content = None, post_headers = None,
            post_data = Some [(''operations'', ''null''),
                              (''map'', ''{0: [variables.a, variables.b.0], 1: [variables.b.1]}'')],
            post_files = Some [(''0'', IOBase 0 None), (''1'', IOBase 1 (Some ''rb''))]\<rparr>"
    by (auto simp: s0 s1 example_dumps_def)
  with h1 show ?thesis by blast
qed

text \<open>The indices are decimal numerals.\<close>

lemma str_nat_examples:
  "str_nat 0 = ''0''" "str_nat 7 = ''7''" "str_nat 10 = ''10''" "str_nat 123 = ''123''"
  by code_simp+

subsection \<open>Normalization of the variables\<close>

lemma keys_foldl_update:
  "fst ` set (foldl (\<lambda>acc (k, v). AList.update k (f v) acc) acc xs) = fst ` set acc \<union> fst ` set xs"
proof (induction xs arbitrary: acc)
  case Nil
  then show ?case by simp
next
  case (Cons x xs)
  then show ?case by (cases x) (auto simp: dom_update)
qed

lemma distinct_foldl_update:
  "distinct (map fst acc) \<Longrightarrow>
   distinct (map fst (foldl (\<lambda>acc (k, v). AList.update k (f v) acc) acc xs))"
proof (induction xs arbitrary: acc)
  case Nil
  then show ?case by simp
next
  case (Cons x xs)
  then show ?case by (cases x) (simp add: distinct_update)
qed

lemma lookup_foldl_update_other:
  "k \<notin> fst ` set xs \<Longrightarrow>
   map_of (foldl (\<lambda>acc (k, v). AList.update k (f v) acc) acc xs) k = map_of acc k"
proof (induction xs arbitrary: acc)
  case Nil
  then show ?case by simp
next
  case (Cons x xs)
  then show ?case by (cases x) (auto simp: update_conv')
qed

lemma lookup_foldl_update:
  "distinct (map fst xs) \<Longrightarrow> (k, v) \<in> set xs \<Longrightarrow>
   map_of (foldl (\<lambda>acc (k, v). AList.update k (f v) acc) acc xs) k = Some (f v)"
proof (induction xs arbitrary: acc)
  case Nil
  then show ?case by simp
next
  case (Cons x xs)
  show ?case
  proof (cases "x = (k, v)")
    case True
    with Cons.prems(1) have "k \<notin> fst ` set xs" by auto
    with True show ?thesis
      by (simp add: lookup_foldl_update_other update_conv')
  next
    case False
    with Cons.prems have "(k, v) \<in> set xs" "distinct (map fst xs)" by auto
    then show ?thesis
      by (cases x) (simp add: Cons.IH)
  qed
qed

lemma separate_dict_keys:
  "fst ` set (fst (separate_dict p d acc fm)) = fst ` set acc \<union> fst ` set d"
proof (induction d arbitrary: acc fm)
  case Nil
  then show ?case by simp
next
  case (Cons x d)
  then show ?case
    by (cases x) (auto simp: dom_update split: prod.splits)
qed

lemma separate_dict_lookup_other:
  "k \<notin> fst ` set d \<Longrightarrow> map_of (fst (separate_dict p d acc fm)) k = map_of acc k"
proof (induction d arbitrary: acc fm)
  case Nil
  then show ?case by simp
next
  case (Cons x d)
  then show ?case
    by (cases x) (auto simp: update_conv' split: prod.splits)
qed

lemma separate_dict_lookup_None:
  "distinct (map fst d) \<Longrightarrow> (k, VNone) \<in> set d \<Longrightarrow>
   map_of (fst (separate_dict p d acc fm)) k = Some VNone"
proof (induction d arbitrary: acc fm)
  case Nil
  then show ?case by simp
next
  case (Cons x d)
  show ?case
  proof (cases "x = (k, VNone)")
    case True
    with Cons.prems(1) have "k \<notin> fst ` set d" by auto
    with True show ?thesis
      by (simp add: separate_dict_lookup_other update_conv')
  next
    case False
    with Cons.prems have "(k, VNone) \<in> set d" "distinct (map fst d)" by auto
    then show ?thesis
      by (cases x) (simp add: Cons.IH split: prod.splits)
  qed
qed

lemma convert_dict_keys:
  "fst ` set (convert_dict_to_json_serializable dct) = fst ` {e \<in> set dct. snd e \<noteq> VUnset}"
  by (simp add: convert_dict_to_json_serializable_def keys_foldl_update split_beta)

lemma convert_dict_distinct: "distinct (map fst (convert_dict_to_json_serializable dct))"
  by (simp add: convert_dict_to_json_serializable_def distinct_foldl_update)

lemma convert_dict_lookup:
  assumes "distinct (map fst dct)" and "(k, v) \<in> set dct" and "v \<noteq> VUnset"
  shows "map_of (convert_dict_to_json_serializable dct) k = Some (convert_value v)"
proof -
  have "distinct (map fst (filter (\<lambda>(key, v). v \<noteq> VUnset) dct))"
    using assms(1) by (simp add: distinct_map_filter)
  moreover have "(k, v) \<in> set (filter (\<lambda>(key, v). v \<noteq> VUnset) dct)"
    using assms(2,3) by simp
  ultimately show ?thesis
    unfolding convert_dict_to_json_serializable_def
    by (rule lookup_foldl_update)
qed

text \<open>
  Claim C2. Variable normalization (\<open>_process_variables\<close>) omits every top-level key whose
  value is the \<open>UNSET\<close> sentinel from the variables mapping it returns, and keeps a key bound
  to \<open>None\<close>, with the value \<open>None\<close>; this mapping is the \<open>variables\<close> entry of the payload that
  \<open>execute\<close> serializes, on either path. The variables are a dictionary: their keys are
  distinct.
\<close>

theorem unset_omitted_null_kept:
  assumes "distinct (map fst vars)"
  shows "\<exists>d. fst (process_variables (Some vars)) = VDict d
           \<and> (\<forall>k. (k, VUnset) \<in> set vars \<longrightarrow> k \<notin> fst ` set d)
           \<and> (\<forall>k. (k, VNone) \<in> set vars \<longrightarrow> map_of d k = Some VNone)
           \<and> execute dumps self query (Some vars) =
               (if snd (process_variables (Some vars)) \<noteq> []
                then execute_multipart dumps self
                       (VDict [(''query'', VStr query), (''variables'', VDict d)])
                       (snd (process_variables (Some vars)))
                else execute_json dumps self
                       (VDict [(''query'', VStr query), (''variables'', VDict d)]))"
proof (cases "vars = []")
  case True
  then show ?thesis by (simp add: process_variables_def execute_def)
next
  case False
  let ?c = "convert_dict_to_json_serializable vars"
  let ?d = "fst (separate_dict ''variables'' ?c [] [])"
  have res: "fst (process_variables (Some vars)) = VDict ?d"
    using False
    by (simp add: process_variables_def get_files_from_variables_def split: prod.splits)
  have unset: "k \<notin> fst ` set ?d" if "(k, VUnset) \<in> set vars" for k
  proof
    assume "k \<in> fst ` set ?d"
    then have "k \<in> fst ` {e \<in> set vars. snd e \<noteq> VUnset}"
      by (simp add: separate_dict_keys convert_dict_keys)
    then obtain v where "(k, v) \<in> set vars" "v \<noteq> VUnset" by auto
    with that assms show False
      by (meson eq_key_imp_eq_value)
  qed
  have null: "map_of ?d k = Some VNone" if "(k, VNone) \<in> set vars" for k
  proof -
    have "map_of ?c k = Some (convert_value VNone)"
      using assms that by (intro convert_dict_lookup) simp_all
    then have "(k, VNone) \<in> set ?c"
      by (auto dest: map_of_SomeD)
    with convert_dict_distinct show ?thesis
      by (rule separate_dict_lookup_None)
  qed
  have "execute dumps self query (Some vars) =
      (if snd (process_variables (Some vars)) \<noteq> []
       then execute_multipart dumps self
              (VDict [(''query'', VStr query), (''variables'', VDict ?d)])
              (snd (process_variables (Some vars)))
       else execute_json dumps self
              (VDict [(''query'', VStr query), (''variables'', VDict ?d)]))"
    by (simp add: execute_def split_beta res)
  with res unset null show ?thesis by blast
qed

text \<open>The theorem at a concrete input.\<close>

theorem unset_omitted_null_kept_witness:
  "distinct (map fst [(''a'', VUnset), (''b'', VNone), (''c'', VInt 1)])
   \<and> fst (process_variables (Some [(''a'', VUnset), (''b'', VNone), (''c'', VInt 1)])) =
       VDict [(''b'', VNone), (''c'', VInt 1)]
   \<and> (\<exists>d. fst (process_variables (Some [(''a'', VUnset), (''b'', VNone), (''c'', VInt 1)])) = VDict d
         \<and> ''a'' \<notin> fst ` set d \<and> map_of d ''b'' = Some VNone)"
proof -
  have h: "distinct (map fst [(''a'', VUnset), (''b'', VNone), (''c'', VInt 1)])"
    by simp
  have v: "fst (process_variables (Some [(''a'', VUnset), (''b'', VNone), (''c'', VInt 1)])) =
       VDict [(''b'', VNone), (''c'', VInt 1)]"
    by (simp add: process_variables_def convert_dict_to_json_serializable_def
        get_files_from_variables_def)
  from unset_omitted_null_kept [OF h, of "\<lambda>v. Inr ''json''"
      "\<lparr>url = ''u'', headers = None, http_client = 0\<rparr>" "''q''"] obtain d where
    "fst (process_variables (Some [(''a'', VUnset), (''b'', VNone), (''c'', VInt 1)])) = VDict d"
    "\<forall>k. (k, VUnset) \<in> set [(''a'', VUnset), (''b'', VNone), (''c'', VInt 1)] \<longrightarrow> k \<notin> fst ` set d"
    "\<forall>k. (k, VNone) \<in> set [(''a'', VUnset), (''b'', VNone), (''c'', VInt 1)] \<longrightarrow> map_of d k = Some VNone"
    by blast
  then have "fst (process_variables (Some [(''a'', VUnset), (''b'', VNone), (''c'', VInt 1)])) = VDict d
     \<and> ''a'' \<notin> fst ` set d \<and> map_of d ''b'' = Some VNone"
    by simp
  with h v show ?thesis by blast
qed

subsection \<open>Dispatch on the File Reference Map\<close>

lemma file_like_free_list_iff: "file_like_free_list xs = (\<forall>x \<in> set xs. file_like_free x)"
  by (induction xs) auto

lemma file_like_free_dict_iff: "file_like_free_dict d = (\<forall>e \<in> set d. file_like_free (snd e))"
  by (induction d) auto

lemma file_like_free_convert_value: "file_like_free v \<Longrightarrow> file_like_free (convert_value v)"
  by (induction v rule: convert_value.induct) (auto simp: file_like_free_list_iff)

lemma set_update_subset: "set (AList.update k v al) \<subseteq> insert (k, v) (set al)"
  by (induction al) auto

lemma set_foldl_update_subset:
  "set (foldl (\<lambda>acc (k, v). AList.update k (f v) acc) acc xs)
     \<subseteq> set acc \<union> (\<lambda>e. (fst e, f (snd e))) ` set xs"
proof (induction xs arbitrary: acc)
  case Nil
  then show ?case by simp
next
  case (Cons x xs)
  have "set (AList.update (fst x) (f (snd x)) acc) \<subseteq> insert (fst x, f (snd x)) (set acc)"
    by (rule set_update_subset)
  with Cons.IH [of "AList.update (fst x) (f (snd x)) acc"] show ?case
    by (cases x) auto
qed

lemma file_like_free_convert_dict:
  assumes "file_like_free_dict dct"
  shows "file_like_free_dict (convert_dict_to_json_serializable dct)"
proof -
  have sub: "set (convert_dict_to_json_serializable dct)
          \<subseteq> (\<lambda>e. (fst e, convert_value (snd e))) ` set (filter (\<lambda>(key, v). v \<noteq> VUnset) dct)"
    using set_foldl_update_subset [of convert_value "[]" "filter (\<lambda>(key, v). v \<noteq> VUnset) dct"]
    by (simp only: convert_dict_to_json_serializable_def list.set Un_empty_left)
  have "file_like_free (snd e)" if "e \<in> set (convert_dict_to_json_serializable dct)" for e
  proof -
    from sub that
    have "e \<in> (\<lambda>e. (fst e, convert_value (snd e))) ` set (filter (\<lambda>(key, v). v \<noteq> VUnset) dct)"
      by blast
    then obtain e' where e': "e' \<in> set dct" "e = (fst e', convert_value (snd e'))"
      by auto
    with assms have "file_like_free (snd e')"
      by (simp add: file_like_free_dict_iff)
    with e' show ?thesis
      by (simp add: file_like_free_convert_value)
  qed
  then show ?thesis
    by (simp add: file_like_free_dict_iff)
qed

lemma file_like_free_occurrences:
  "file_like_free v \<Longrightarrow> file_occurrences p v = []"
  "file_like_free_list vs \<Longrightarrow> list_occurrences p i vs = []"
  "file_like_free_dict d \<Longrightarrow> dict_occurrences p d = []"
  by (induction p v and p i vs and p d rule: file_occurrences_list_occurrences_dict_occurrences.induct)
     simp_all

lemma file_like_free_no_files:
  "file_like_free_dict d \<Longrightarrow> snd (get_files_from_variables d) = []"
  by (simp only: get_files_from_variables_def separate_snd)
     (simp add: file_like_free_occurrences record_all_Nil)

text \<open>
  Claim C6. For a variables structure that contains no file-like value, normalization
  yields an empty File Reference Map and \<open>execute\<close> takes the plain JSON path: what it
  returns is what \<open>_execute_json\<close> returns, a request with a JSON body and the JSON
  content type and with neither form fields nor file parts, never a multipart request.
\<close>

theorem no_files_plain_json:
  assumes "file_like_free_dict vars"
  shows "snd (process_variables (Some vars)) = []
       \<and> execute dumps self query (Some vars) =
           execute_json dumps self
             (VDict [(''query'', VStr query), (''variables'', fst (process_variables (Some vars)))])
       \<and> execute dumps self query (Some vars) =
           (case dumps (VDict [(''query'', VStr query),
                               (''variables'', fst (process_variables (Some vars)))]) of
              Inl e \<Rightarrow> Inl e
            | Inr content \<Rightarrow>
                Inr \<lparr>post_url = url self, post_content = Some content,
                     post_headers = Some [(''Content-Type'', ''application/json'')],
                     post_data = None, post_files = None\<rparr>)"
proof -
  have empty: "snd (process_variables (Some vars)) = []"
    using assms
    by (simp add: process_variables_def file_like_free_no_files file_like_free_convert_dict)
  then have "execute dumps self query (Some vars) =
     execute_json dumps self
       (VDict [(''query'', VStr query), (''variables'', fst (process_variables (Some vars)))])"
    by (simp add: execute_def split_beta)
  with empty show ?thesis
    by (simp add: execute_json_def)
qed

text \<open>The theorem at a concrete input.\<close>

theorem no_files_plain_json_witness:
  "file_like_free_dict [(''a'', VList [VInt 1, VNone]), (''b'', VBaseModel [(''c'', VStr ''x'')])]
   \<and> process_variables (Some [(''a'', VList [VInt 1, VNone]), (''b'', VBaseModel [(''c'', VStr ''x'')])]) =
       (VDict [(''a'', VList [VInt 1, VNone]), (''b'', VDict [(''c'', VStr ''x'')])], [])
   \<and> execute (\<lambda>v. Inr ''json'') \<lparr>url = ''u'', headers = None, http_client = 0\<rparr> ''q''
        (Some [(''a'', VList [VInt 1, VNone]), (''b'', VBaseModel [(''c'', VStr ''x'')])]) =
       Inr \<lparr>post_url = ''u'', post_content = Some ''json'',
            post_headers = Some [(''Content-Type'', ''application/json'')],
            post_data = None, post_files = None\<rparr>"
proof -
  let ?vars = "[(''a'', VList [VInt 1, VNone]), (''b'', VBaseModel [(''c'', VStr ''x'')])]"
  have h: "file_like_free_dict ?vars"
    by simp
  have p: "process_variables (Some ?vars) =
       (VDict [(''a'', VList [VInt 1, VNone]), (''b'', VDict [(''c'', VStr ''x'')])], [])"
    by (simp add: process_variables_def convert_dict_to_json_serializable_def
        get_files_from_variables_def str_nat.simps)
  from no_files_plain_json [OF h, of "\<lambda>v. Inr ''json''"
      "\<lparr>url = ''u'', headers = None, http_client = 0\<rparr>" "''q''", THEN conjunct2, THEN conjunct2]
  have "execute (\<lambda>v. Inr ''json'') \<lparr>url = ''u'', headers = None, http_client = 0\<rparr> ''q''
        (Some ?vars) =
       Inr \<lparr>post_url = ''u'', post_content = Some ''json'',
            post_headers = Some [(''Content-Type'', ''application/json'')],
            post_data = None, post_files = None\<rparr>"
    by simp
  with h p show ?thesis by blast
qed

lemma no_variables_plain_json:
  "snd (process_variables None) = []
     \<and> execute dumps self query None =
         execute_json dumps self (VDict [(''query'', VStr query), (''variables'', VDict [])])"
  by (simp add: execute_def process_variables_def)

text \<open>
  Claim C10. A file-like object without a \<open>mode\<close> attribute counts as binary: file
  extraction replaces it by \<open>None\<close> and lists its path in the File Reference Map, and
  \<open>execute\<close> takes the multipart path. A file-like object whose mode contains no \<open>b\<close> stays
  in the structure as it is, adds nothing to the map, and \<open>execute\<close> takes the plain JSON
  path.
\<close>

theorem mode_decides_extraction:
  "separate_files p (VIOBase (IOBase a None)) fm = (VNone, record_file (IOBase a None) p fm)
   \<and> (\<exists>paths. map_of (record_file (IOBase a None) p fm) (IOBase a None) = Some paths
         \<and> p \<in> set paths)
   \<and> execute dumps self query (Some [(key, VIOBase (IOBase a None))]) =
        execute_multipart dumps self
          (VDict [(''query'', VStr query), (''variables'', VDict [(key, VNone)])])
          [(IOBase a None, [''variables.'' @ key])]
   \<and> (CHR ''b'' \<notin> set m \<longrightarrow>
        separate_files p (VIOBase (IOBase a (Some m))) fm = (VIOBase (IOBase a (Some m)), fm)
        \<and> process_variables (Some [(key, VIOBase (IOBase a (Some m)))]) =
            (VDict [(key, VIOBase (IOBase a (Some m)))], [])
        \<and> execute dumps self query (Some [(key, VIOBase (IOBase a (Some m)))]) =
            execute_json dumps self
              (VDict [(''query'', VStr query),
                      (''variables'', VDict [(key, VIOBase (IOBase a (Some m)))])]))"
proof -
  have extracted: "separate_files p (VIOBase (IOBase a None)) fm =
      (VNone, record_file (IOBase a None) p fm)"
    by (simp add: is_binary_def)
  have listed: "\<exists>paths. map_of (record_file (IOBase a None) p fm) (IOBase a None) = Some paths
      \<and> p \<in> set paths"
    by (simp add: lookup_record_file)
  have multipart: "execute dumps self query (Some [(key, VIOBase (IOBase a None))]) =
      execute_multipart dumps self
        (VDict [(''query'', VStr query), (''variables'', VDict [(key, VNone)])])
        [(IOBase a None, [''variables.'' @ key])]"
    by (simp add: is_binary_def execute_def process_variables_def get_files_from_variables_def
        convert_dict_to_json_serializable_def record_file_def)
  have text_mode: "separate_files p (VIOBase (IOBase a (Some m))) fm = (VIOBase (IOBase a (Some m)), fm)
      \<and> process_variables (Some [(key, VIOBase (IOBase a (Some m)))]) =
          (VDict [(key, VIOBase (IOBase a (Some m)))], [])
      \<and> execute dumps self query (Some [(key, VIOBase (IOBase a (Some m)))]) =
          execute_json dumps self
            (VDict [(''query'', VStr query),
                    (''variables'', VDict [(key, VIOBase (IOBase a (Some m)))])])"
    if "CHR ''b'' \<notin> set m"
    using that
    by (simp add: is_binary_def execute_def process_variables_def get_files_from_variables_def
        convert_dict_to_json_serializable_def)
  from extracted listed multipart text_mode show ?thesis by blast
qed

text \<open>The theorem at a concrete input.\<close>

theorem mode_decides_extraction_witness:
  "CHR ''b'' \<notin> set ''r''
   \<and> separate_files ''variables.f'' (VIOBase (IOBase 0 None)) [] =
       (VNone, [(IOBase 0 None, [''variables.f''])])
   \<and> separate_files ''variables.f'' (VIOBase (IOBase 0 (Some ''r''))) [] =
       (VIOBase (IOBase 0 (Some ''r'')), [])
   \<and> execute (\<lambda>v. Inr ''json'') \<lparr>url = ''u'', headers = None, http_client = 0\<rparr> ''q''
        (Some [(''f'', VIOBase (IOBase 0 (Some ''r'')))]) =
       Inr \<lparr>post_url = ''u'', post_content = Some ''json'',
            post_headers = Some [(''Content-Type'', ''application/json'')],
            post_data = None, post_files = None\<rparr>"
proof -
  have h: "CHR ''b'' \<notin> set ''r''"
    by simp
  from h mode_decides_extraction [of "''variables.f''" 0 "[]" "\<lambda>v. Inr ''json''"
      "\<lparr>url = ''u'', headers = None, http_client = 0\<rparr>" "''q''" "''f''" "''r''"]
  show ?thesis
    by (simp add: record_file_def execute_json_def)
qed

subsection \<open>Responses\<close>





text \<open>
  Claim C4. For a response whose status is not a success, \<open>get_data\<close> fails with the
  HTTP error carrying the status code and the response. It does so whatever the JSON
  decoder would do with the body: the decoder is not consulted.
\<close>

theorem get_data_http_error:
  assumes "\<not> is_success response"
  shows "\<forall>loads. get_data loads response = Inl (GraphQLClientHttpError (status_code response) response)"
  using assms by (simp add: get_data_def)

text \<open>The theorem at a concrete input.\<close>

theorem get_data_http_error_witness:
  "\<not> is_success \<lparr>status_code = 500, response_content = ''{}''\<rparr>
   \<and> get_data (\<lambda>s. Some (JObject [(''data'', JNull)]))
        \<lparr>status_code = 500, response_content = ''{}''\<rparr> =
       Inl (GraphQLClientHttpError 500 \<lparr>status_code = 500, response_content = ''{}''\<rparr>)"
proof -
  have h: "\<not> is_success \<lparr>status_code = 500, response_content = ''{}''\<rparr>"
    by (simp add: is_success_def)
  from get_data_http_error [OF h] h show ?thesis
    by simp
qed

subsection \<open>Scoped use\<close>

lemma close_nth:
  "a < length st \<Longrightarrow> is_closed (close a st ! a)"
  "length (close a st) = length st"
  "b \<noteq> a \<Longrightarrow> close a st ! b = st ! b"
  by (simp_all add: close_def)

text \<open>
  Claim C1, as the code has it. \<open>__exit__\<close> closes the HTTP client handle the base client
  holds, the injected handle as well as one the base client created itself, on every exit
  path (whatever the three arguments that describe the exception are), and changes no
  other handle of the store.
\<close>

theorem exit_closes_held_handle:
  assumes "BaseClient_init u hs injected st = (self, st1)"
    and "case injected of None \<Rightarrow> True | Some a \<Rightarrow> a < length st"
  shows "http_client self = (case injected of None \<Rightarrow> length st | Some a \<Rightarrow> a)
       \<and> http_client self < length st1
       \<and> is_closed (exit self exc_type exc_val exc_tb st1 ! http_client self)
       \<and> length (exit self exc_type exc_val exc_tb st1) = length st1
       \<and> (\<forall>b. b \<noteq> http_client self \<longrightarrow>
             exit self exc_type exc_val exc_tb st1 ! b = st1 ! b)"
  using assms
  by (cases injected) (auto simp: BaseClient_init_def httpx_Client_def exit_def close_nth)

text \<open>
  A base client that creates its own handle, left on an error exit.
\<close>

theorem exit_closes_held_handle_witness:
  "BaseClient_init ''u'' None None [\<lparr>client_headers = None, is_closed = False\<rparr>] =
     (\<lparr>url = ''u'', headers = None, http_client = 1\<rparr>,
      [\<lparr>client_headers = None, is_closed = False\<rparr>, \<lparr>client_headers = None, is_closed = False\<rparr>])
   \<and> is_closed (exit \<lparr>url = ''u'', headers = None, http_client = 1\<rparr>
        (Some ''ValueError'') (Some ''boom'') (Some ''traceback'')
        [\<lparr>client_headers = None, is_closed = False\<rparr>, \<lparr>client_headers = None, is_closed = False\<rparr>] ! 1)
   \<and> exit \<lparr>url = ''u'', headers = None, http_client = 1\<rparr>
        (Some ''ValueError'') (Some ''boom'') (Some ''traceback'')
        [\<lparr>client_headers = None, is_closed = False\<rparr>, \<lparr>client_headers = None, is_closed = False\<rparr>] ! 0 =
       \<lparr>client_headers = None, is_closed = False\<rparr>"
proof -
  have h1: "BaseClient_init ''u'' None None [\<lparr>client_headers = None, is_closed = False\<rparr>] =
     (\<lparr>url = ''u'', headers = None, http_client = 1\<rparr>,
      [\<lparr>client_headers = None, is_closed = False\<rparr>, \<lparr>client_headers = None, is_closed = False\<rparr>])"
    by (simp add: BaseClient_init_def httpx_Client_def)
  have h2: "case None :: nat option of None \<Rightarrow> True
            | Some a \<Rightarrow> a < length [\<lparr>client_headers = None, is_closed = False\<rparr>]"
    by simp
  from exit_closes_held_handle [OF h1 h2, of "Some ''ValueError''" "Some ''boom''"
      "Some ''traceback''"] h1 show ?thesis
    by simp
qed

text \<open>
  Claim C1, as the spec states it, fails: a base client constructed with the injected
  handle at address 0, which is open, leaves the store as it is, and \<open>__exit__\<close> then closes
  that handle.
\<close>

theorem injected_handle_closed_counterexample:
  "fst (BaseClient_init ''u'' None (Some 0) [\<lparr>client_headers = None, is_closed = False\<rparr>]) =
     \<lparr>url = ''u'', headers = None, http_client = 0\<rparr>
   \<and> snd (BaseClient_init ''u'' None (Some 0) [\<lparr>client_headers = None, is_closed = False\<rparr>]) =
       [\<lparr>client_headers = None, is_closed = False\<rparr>]
   \<and> exit \<lparr>url = ''u'', headers = None, http_client = 0\<rparr> None None None
        [\<lparr>client_headers = None, is_closed = False\<rparr>] =
       [\<lparr>client_headers = None, is_closed = True\<rparr>]"
  by (simp add: BaseClient_init_def exit_def close_def)

section \<open>Properties of the client generator\<close>

subsection \<open>The class body\<close>

lemma add_import_fields:
  "plugin_manager (add_import i s) = plugin_manager s"
  "class_def (add_import i s) = class_def s"
  "arguments_generator (add_import i s) = arguments_generator s"
  "custom_scalars (add_import i s) = custom_scalars s"
  "enums_module_name (add_import i s) = enums_module_name s"
  "input_types_module_name (add_import i s) = input_types_module_name s"
  "gql_func_name (add_import i s) = gql_func_name s"
  "operation_str_variable (add_import i s) = operation_str_variable s"
  "variables_dict_variable (add_import i s) = variables_dict_variable s"
  "response_variable (add_import i s) = response_variable s"
  "data_variable (add_import i s) = data_variable s"
  by (simp_all add: add_import_def Let_def split: option.splits)

lemma add_method_body:
  "body (class_def (add_method C c self)) = body (class_def self) @ [appended_method C c self]"
  by (simp add: add_method_def appended_method_def add_import_fields Let_def split: prod.splits)

lemma add_methods_snoc:
  "add_methods C (cs @ [c]) self = add_method C c (add_methods C cs self)"
  by (simp add: add_methods_def)

text \<open>
  Claim C8. After any sequence of calls of \<open>add_method\<close> the class body is the body
  before the calls followed by the methods of the calls, one per call, in the order of the
  calls; the method at position \<open>i\<close> is the one the \<open>i\<close>-th call built in the state the calls
  before it left. This holds for every generator state, so for every plugin-hook
  collection registered in it.
\<close>

theorem methods_in_call_order:
  "body (class_def (add_methods C cs self)) =
     body (class_def self) @
       map (\<lambda>i. appended_method C (cs ! i) (add_methods C (take i cs) self)) [0..<length cs]"
proof (induction cs rule: rev_induct)
  case Nil
  then show ?case by (simp add: add_methods_def)
next
  case (snoc c cs)
  have "map (\<lambda>i. appended_method C ((cs @ [c]) ! i) (add_methods C (take i (cs @ [c])) self))
          [0..<length cs] =
        map (\<lambda>i. appended_method C (cs ! i) (add_methods C (take i cs) self)) [0..<length cs]"
    by (rule map_cong) (simp_all add: nth_append)
  with snoc show ?case
    by (simp add: add_methods_snoc add_method_body)
qed

subsection \<open>Identity hooks\<close>

lemma add_import_identity:
  "plugin_manager s = None \<Longrightarrow>
   add_import i (s\<lparr>plugin_manager := Some identity_hooks\<rparr>) =
     (add_import i s)\<lparr>plugin_manager := Some identity_hooks\<rparr>"
  by (simp add: add_import_def identity_hooks_def Let_def split: option.splits)

lemma add_method_fields:
  "plugin_manager (add_method C c s) = plugin_manager s"
  "gql_func_name (add_method C c s) = gql_func_name s"
  "operation_str_variable (add_method C c s) = operation_str_variable s"
  "variables_dict_variable (add_method C c s) = variables_dict_variable s"
  "response_variable (add_method C c s) = response_variable s"
  "data_variable (add_method C c s) = data_variable s"
  by (simp_all add: add_method_def add_import_fields Let_def split: prod.splits)

lemma add_methods_fields:
  "plugin_manager (add_methods C cs s) = plugin_manager s"
  "gql_func_name (add_methods C cs s) = gql_func_name s"
  "operation_str_variable (add_methods C cs s) = operation_str_variable s"
  "variables_dict_variable (add_methods C cs s) = variables_dict_variable s"
  "response_variable (add_methods C cs s) = response_variable s"
  "data_variable (add_methods C cs s) = data_variable s"
  by (induction cs rule: rev_induct) (simp_all add: add_methods_snoc add_method_fields, simp_all add: add_methods_def)

lemma method_def_of_cong:
  assumes "class_def s' = class_def s" "gql_func_name s' = gql_func_name s"
    "operation_str_variable s' = operation_str_variable s"
    "variables_dict_variable s' = variables_dict_variable s"
    "response_variable s' = response_variable s" "data_variable s' = data_variable s"
  shows "method_def_of s' c a d = method_def_of s c a d"
  using assms
  by (simp add: method_def_of_def generate_async_method_def generate_method_def
      generate_operation_str_assign_def generate_variables_assign_def
      generate_async_response_assign_def generate_response_assign_def generate_execute_call_def
      generate_data_retrieval_def generate_return_parsed_obj_def)

lemma add_method_identity:
  assumes "plugin_manager s = None"
  shows "add_method C c (s\<lparr>plugin_manager := Some identity_hooks\<rparr>) =
     (add_method C c s)\<lparr>plugin_manager := Some identity_hooks\<rparr>"
proof -
  obtain a d ag' where g: "ag_generate C (variable_definitions (call_definition c)) (arguments_generator s) = ((a, d), ag')"
    by (metis prod.collapse)
  let ?s2 = "s\<lparr>arguments_generator := ag',
               class_def := (class_def s)\<lparr>body := body (class_def s) @ [method_def_of (s\<lparr>arguments_generator := ag'\<rparr>) c a d]\<rparr>\<rparr>"
  have none: "plugin_manager ?s2 = None"
    using assms by simp
  have m: "method_def_of (s\<lparr>plugin_manager := Some identity_hooks, arguments_generator := ag'\<rparr>) c a d =
           method_def_of (s\<lparr>arguments_generator := ag'\<rparr>) c a d"
    by (rule method_def_of_cong) simp_all
  have swap: "s\<lparr>plugin_manager := Some identity_hooks, arguments_generator := ag',
               class_def := (class_def s)\<lparr>body := body (class_def s) @ [method_def_of (s\<lparr>arguments_generator := ag'\<rparr>) c a d]\<rparr>\<rparr> =
        ?s2\<lparr>plugin_manager := Some identity_hooks\<rparr>"
    by (rule client_generator.equality) simp_all
  have hook: "generate_client_method identity_hooks x = x" for x
    by (simp add: identity_hooks_def)
  have "add_method C c (s\<lparr>plugin_manager := Some identity_hooks\<rparr>) =
     add_import (Some (generate_import_from [call_return_type c] (Some (call_return_type_module c)) (Some 1)))
       (s\<lparr>plugin_manager := Some identity_hooks, arguments_generator := ag',
               class_def := (class_def s)\<lparr>body := body (class_def s) @ [method_def_of (s\<lparr>arguments_generator := ag'\<rparr>) c a d]\<rparr>\<rparr>)"
    using g m hook by (simp add: add_method_def Let_def)
  then have lhs: "add_method C c (s\<lparr>plugin_manager := Some identity_hooks\<rparr>) =
     add_import (Some (generate_import_from [call_return_type c] (Some (call_return_type_module c)) (Some 1)))
       (?s2\<lparr>plugin_manager := Some identity_hooks\<rparr>)"
    by (simp only: swap)
  have rhs: "add_method C c s =
     add_import (Some (generate_import_from [call_return_type c] (Some (call_return_type_module c)) (Some 1))) ?s2"
    using g assms by (simp add: add_method_def Let_def)
  show ?thesis
    by (simp only: lhs rhs add_import_identity [OF none])
qed

lemma add_methods_identity:
  "plugin_manager s = None \<Longrightarrow>
   add_methods C cs (s\<lparr>plugin_manager := Some identity_hooks\<rparr>) =
     (add_methods C cs s)\<lparr>plugin_manager := Some identity_hooks\<rparr>"
proof (induction cs rule: rev_induct)
  case Nil
  then show ?case by (simp add: add_methods_def)
next
  case (snoc c cs)
  then show ?case
    by (simp add: add_methods_snoc add_method_identity add_methods_fields)
qed

lemma foldl_add_import_fields:
  "plugin_manager (foldl (\<lambda>s imp. add_import (Some imp) s) s imps) = plugin_manager s"
  "custom_scalars (foldl (\<lambda>s imp. add_import (Some imp) s) s imps) = custom_scalars s"
  by (induction imps arbitrary: s) (simp_all add: add_import_fields)

lemma foldl_add_import_identity:
  "plugin_manager s = None \<Longrightarrow>
   foldl (\<lambda>s imp. add_import (Some imp) s) (s\<lparr>plugin_manager := Some identity_hooks\<rparr>) imps =
     (foldl (\<lambda>s imp. add_import (Some imp) s) s imps)\<lparr>plugin_manager := Some identity_hooks\<rparr>"
  by (induction imps arbitrary: s) (simp_all add: add_import_identity add_import_fields)

lemma add_scalar_imports_identity_aux:
  "plugin_manager s = None \<Longrightarrow>
   add_scalar_imports C ns (s\<lparr>plugin_manager := Some identity_hooks\<rparr>) =
     (fst (add_scalar_imports C ns s),
      (snd (add_scalar_imports C ns s))\<lparr>plugin_manager := Some identity_hooks\<rparr>)
   \<and> plugin_manager (snd (add_scalar_imports C ns s)) = None"
proof (induction ns arbitrary: s)
  case Nil
  then show ?case by simp
next
  case (Cons n ns)
  show ?case
  proof (cases "map_of (custom_scalars s) n")
    case None
    with Cons.prems show ?thesis by simp
  next
    case (Some scalar_data)
    let ?s' = "foldl (\<lambda>s imp. add_import (Some imp) s) s (generate_scalar_imports C scalar_data)"
    have "plugin_manager ?s' = None"
      using Cons.prems by (simp add: foldl_add_import_fields)
    from Cons.IH [OF this] Some Cons.prems show ?thesis
      by (simp add: foldl_add_import_identity)
  qed
qed

lemma add_scalar_imports_identity:
  assumes "plugin_manager s = None"
  shows "add_scalar_imports C ns (s\<lparr>plugin_manager := Some identity_hooks\<rparr>) =
     (fst (add_scalar_imports C ns s),
      (snd (add_scalar_imports C ns s))\<lparr>plugin_manager := Some identity_hooks\<rparr>)"
    and "plugin_manager (snd (add_scalar_imports C ns s)) = None"
  using add_scalar_imports_identity_aux [OF assms] by simp_all

lemma generate_identity:
  assumes "plugin_manager s = None"
  shows "fst (generate C (s\<lparr>plugin_manager := Some identity_hooks\<rparr>)) = fst (generate C s)"
proof -
  have hooks: "generate_gql_function identity_hooks x = x"
    "generate_client_class identity_hooks y = y"
    "generate_client_module identity_hooks z = z" for x y z
    by (simp_all add: identity_hooks_def)
  show ?thesis
    using assms
    by (simp add: generate_def Let_def prod.case_eq_if add_import_identity add_import_fields
        add_scalar_imports_identity hooks generate_gql_func_def split: option.splits)
qed

lemma init_identity:
  "ClientGenerator_init T n b e i ag bi ui sc (Some identity_hooks) =
     (ClientGenerator_init T n b e i ag bi ui sc None)\<lparr>plugin_manager := Some identity_hooks\<rparr>
   \<and> plugin_manager (ClientGenerator_init T n b e i ag bi ui sc None) = None"
  by (simp add: ClientGenerator_init_def add_import_fields
      add_import_identity [symmetric])

text \<open>
  Claim C9. A generation run (construction, any calls of \<open>add_method\<close>, \<open>generate\<close>) with
  the plugin-hook collection whose five hooks are the identity produces what the same run
  without a plugin-hook collection produces: the same module, or the same exception.
\<close>

theorem identity_hooks_same_module:
  "fst (generate C (add_methods C cs
          (ClientGenerator_init T n b e i ag bi ui sc (Some identity_hooks)))) =
   fst (generate C (add_methods C cs (ClientGenerator_init T n b e i ag bi ui sc None)))"
proof -
  let ?s = "ClientGenerator_init T n b e i ag bi ui sc None"
  have none: "plugin_manager ?s = None"
    by (simp add: init_identity)
  then have none': "plugin_manager (add_methods C cs ?s) = None"
    by (simp add: add_methods_fields)
  have "add_methods C cs (ClientGenerator_init T n b e i ag bi ui sc (Some identity_hooks)) =
        (add_methods C cs ?s)\<lparr>plugin_manager := Some identity_hooks\<rparr>"
    by (simp only: init_identity add_methods_identity [OF none])
  then show ?thesis
    by (simp only: generate_identity [OF none'])
qed

subsection \<open>The generated method\<close>

lemma init_fields:
  "plugin_manager (ClientGenerator_init T n b e i ag bi ui sc pm) = pm"
  "gql_func_name (ClientGenerator_init T n b e i ag bi ui sc pm) = ''gql''"
  "operation_str_variable (ClientGenerator_init T n b e i ag bi ui sc pm) = ''query''"
  "variables_dict_variable (ClientGenerator_init T n b e i ag bi ui sc pm) = ''variables''"
  "response_variable (ClientGenerator_init T n b e i ag bi ui sc pm) = ''response''"
  "data_variable (ClientGenerator_init T n b e i ag bi ui sc pm) = ''data''"
  by (simp_all add: ClientGenerator_init_def add_import_fields)

lemma method_def_of_shape:
  assumes "gql_func_name s = ''gql''" "operation_str_variable s = ''query''"
    "variables_dict_variable s = ''variables''" "response_variable s = ''response''"
    "data_variable s = ''data''"
  shows "method_def_of s c arguments arguments_dict =
     (if call_async c then AsyncFunctionDef else FunctionDef) (call_name c) arguments
       [Assign [''query'']
          (Call (Name ''gql'')
             [Nodes (map (\<lambda>l. Constant (l @ [char_of (10 :: nat)]))
                       (splitlines (call_operation_str c)))] [])
          (Some 1),
        AnnAssign ''variables''
          (Subscript (Name ''dict'') (Tuple [Name ''str'', Name ''object'']))
          arguments_dict (Some 2),
        Assign [''response'']
          (if call_async c
           then Await (Call (Attribute (Name ''self'') ''execute'') []
                         [(''query'', Name ''query''), (''variables'', Name ''variables'')])
           else Call (Attribute (Name ''self'') ''execute'') []
                  [(''query'', Name ''query''), (''variables'', Name ''variables'')])
          (Some 3),
        Assign [''data'']
          (Call (Attribute (Name ''self'') ''get_data'') [Name ''response''] []) None,
        Return (Call (Attribute (Name (call_return_type c)) ''parse_obj'') [Name ''data''] [])]
       (Name (call_return_type c))
       (Some (length (body (class_def s)) + 1))"
  using assms
  by (simp add: method_def_of_def generate_async_method_def generate_method_def
      generate_operation_str_assign_def generate_variables_assign_def
      generate_async_response_assign_def generate_response_assign_def generate_execute_call_def
      generate_data_retrieval_def generate_return_parsed_obj_def
      generate_async_method_definition_def generate_method_definition_def generate_assign_def
      generate_ann_assign_def generate_return_def generate_call_def generate_name_def
      generate_constant_def generate_attribute_def generate_keyword_def generate_await_def
      generate_subscript_def generate_tuple_def)

text \<open>
  Claim C7. In a generator built by \<open>__init__\<close> and any calls of \<open>add_method\<close>, a call of
  \<open>add_method\<close> for an operation definition with \<open>N\<close> variable definitions generates a
  method with \<open>N\<close> parameters after the receiver \<open>self\<close> and a body of exactly five
  statements in this order: the assignment of the query, the annotated assignment of the
  variables mapping, the assignment of the response from \<open>self.execute\<close> (awaited exactly
  when \<open>async_\<close> holds), the assignment of the data from \<open>self.get_data\<close>, and the return of
  the parsed result. This method is handed to the hook \<open>generate_client_method\<close>, if one is
  registered, and the result is appended to the class body.
\<close>

theorem generated_method_shape:
  "let C' = C\<lparr>ag_generate := ArgumentsGenerator_generate R\<rparr>;
       self = add_methods C' cs (ClientGenerator_init T n b e i ag bi ui sc pm)
   in \<exists>params defaults mapping.
        length params = length (variable_definitions (call_definition c))
      \<and> body (class_def (add_method C' c self)) =
          body (class_def self) @
          [(case pm of None \<Rightarrow> (\<lambda>m. m) | Some p \<Rightarrow> generate_client_method p)
             ((if call_async c then AsyncFunctionDef else FunctionDef) (call_name c)
                (Arguments (Arg ''self'' None # params) defaults)
                [Assign [''query'']
                   (Call (Name ''gql'')
                      [Nodes (map (\<lambda>l. Constant (l @ [char_of (10 :: nat)]))
                                (splitlines (call_operation_str c)))] [])
                   (Some 1),
                 AnnAssign ''variables''
                   (Subscript (Name ''dict'') (Tuple [Name ''str'', Name ''object'']))
                   mapping (Some 2),
                 Assign [''response'']
                   (if call_async c
                    then Await (Call (Attribute (Name ''self'') ''execute'') []
                                  [(''query'', Name ''query''), (''variables'', Name ''variables'')])
                    else Call (Attribute (Name ''self'') ''execute'') []
                           [(''query'', Name ''query''), (''variables'', Name ''variables'')])
                   (Some 3),
                 Assign [''data'']
                   (Call (Attribute (Name ''self'') ''get_data'') [Name ''response''] []) None,
                 Return (Call (Attribute (Name (call_return_type c)) ''parse_obj'')
                           [Name ''data''] [])]
                (Name (call_return_type c))
                (Some (length (body (class_def self)) + 1)))]"
proof -
  let ?C = "C\<lparr>ag_generate := ArgumentsGenerator_generate R\<rparr>"
  let ?self = "add_methods ?C cs (ClientGenerator_init T n b e i ag bi ui sc pm)"
  let ?vds = "variable_definitions (call_definition c)"
  let ?params = "map (\<lambda>vd. Arg (variable_name vd) (Some (annotation_of R vd))) ?vds"
  let ?defaults = "List.map_filter (default_of R) ?vds"
  let ?mapping = "Dict (map (\<lambda>vd. Constant (variable_name vd)) ?vds) (map (mapping_value_of R) ?vds)"
  let ?ag = "foldl (\<lambda>a vd. record_referenced R vd a) (arguments_generator ?self) ?vds"
  have fields: "gql_func_name (?self\<lparr>arguments_generator := ?ag\<rparr>) = ''gql''"
    "operation_str_variable (?self\<lparr>arguments_generator := ?ag\<rparr>) = ''query''"
    "variables_dict_variable (?self\<lparr>arguments_generator := ?ag\<rparr>) = ''variables''"
    "response_variable (?self\<lparr>arguments_generator := ?ag\<rparr>) = ''response''"
    "data_variable (?self\<lparr>arguments_generator := ?ag\<rparr>) = ''data''"
    by (simp_all add: add_methods_fields init_fields)
  have pm: "plugin_manager ?self = pm"
    by (simp add: add_methods_fields init_fields)
  have "length ?params = length ?vds"
    by simp
  moreover have "body (class_def (add_method ?C c ?self)) =
      body (class_def ?self) @
      [(case pm of None \<Rightarrow> (\<lambda>m. m) | Some p \<Rightarrow> generate_client_method p)
         (method_def_of (?self\<lparr>arguments_generator := ?ag\<rparr>) c
            (Arguments (Arg ''self'' None # ?params) ?defaults) ?mapping)]"
    by (simp add: add_method_body appended_method_def ArgumentsGenerator_generate_def pm
        split: option.splits)
  ultimately show ?thesis
    unfolding Let_def method_def_of_shape [OF fields]
    by (intro exI [of _ ?params] exI [of _ ?defaults] exI [of _ ?mapping]) simp
qed

text \<open>
  The module of a run with one asynchronous method and no plugin manager: the imports with
  a usable module and names, the helper function, the class; and the order of three
  methods under a hook that rewrites every method.
\<close>

lemma example_generation_run:
  "fst (generate example_collaborators (add_methods example_collaborators [example_call ''f'' True] (example_init None))) =
   Inr (Module
        [ImportFrom \<lparr>names = [''Optional'', ''List'', ''Any'', ''Union''],
                     module = Some ''typing'', level = None\<rparr>,
         ImportFrom \<lparr>names = [''R''], module = Some ''r'', level = Some 1\<rparr>,
         ImportFrom \<lparr>names = [''Color''], module = Some ''enums'', level = Some 1\<rparr>,
         Stmt (FunctionDef ''gql'' (Arguments [Arg ''q'' (Some (Name ''str''))] [])
                 [Return (Name ''q'')] (Name ''str'') (Some 4)),
         ClassDef
          \<lparr>class_name = ''Client'', base_names = [''BaseClient''],
           body =
             [AsyncFunctionDef ''f''
                (Arguments [Arg ''self'' None, Arg ''id'' (Some (Name ''str''))] [])
                [Assign [''query'']
                   (Call (Name ''gql'')
                      [Nodes [Constant (''query Q {'' @ [char_of (10::nat)]),
                              Constant (''}'' @ [char_of (10::nat)])]] [])
                   (Some 1),
                 AnnAssign ''variables''
                   (Subscript (Name ''dict'') (Tuple [Name ''str'', Name ''object'']))
                   (Dict [Constant ''id''] [Name ''id'']) (Some 2),
                 Assign [''response'']
                   (Await (Call (Attribute (Name ''self'') ''execute'') []
                             [(''query'', Name ''query''), (''variables'', Name ''variables'')]))
                   (Some 3),
                 Assign [''data'']
                   (Call (Attribute (Name ''self'') ''get_data'') [Name ''response''] []) None,
                 Return (Call (Attribute (Name ''R'') ''parse_obj'') [Name ''data''] [])]
                (Name ''R'') (Some 1)],
           lineno = Some 6\<rparr>])"
  by code_simp

lemma example_methods_order:
  "map (\<lambda>m. case m of FunctionDef f _ _ _ _ \<Rightarrow> f | AsyncFunctionDef f _ _ _ _ \<Rightarrow> f | _ \<Rightarrow> [])
     (body (class_def (add_methods example_collaborators [example_call ''a'' True, example_call ''b'' False, example_call ''c'' True]
        (example_init (Some (identity_hooks\<lparr>generate_client_method := set_lineno 7\<rparr>)))))) =
   [''a'', ''b'', ''c'']"
  by code_simp

end
